theory Spec2Isabelle
  imports Main "HOL-Library.Sublist" "HOL-Library.Word" "HOL-Library.AList"
begin

section \<open>Parsed JSON values and the Python operations the validator applies to them\<close>

text \<open>
  \<open>validate_attestation\<close> (src/zkpf/validate_attestation.py) receives what
  \<open>json.load\<close> returns: \<open>None\<close>, a \<open>bool\<close>, an unbounded \<open>int\<close>, a
  \<open>float\<close>, a \<open>str\<close>, a \<open>list\<close> or a \<open>dict\<close> with string keys.
  A dict is an association list read through \<open>map_of\<close>. A float is carried as its
  binary64 bit pattern; the validator never looks inside one. A Python string is a
  \<open>string\<close>, one \<open>char\<close> per character: characters beyond code point 255 are
  outside the model (the validator treats them like any other character that is neither
  a hexadecimal digit nor ASCII whitespace).
\<close>

datatype json =
    JNull
  | JBool bool
  | JInt int
  | JFloat "64 word"
  | JString string
  | JArray "json list"
  | JObject "(string \<times> json) list"

text \<open>The Python classes the validator names, and \<open>type(v)\<close>.\<close>

datatype pytype = PyNoneType | PyBool | PyInt | PyFloat | PyStr | PyList | PyDict

fun type_of :: "json \<Rightarrow> pytype" where
  "type_of JNull = PyNoneType"
| "type_of (JBool b) = PyBool"
| "type_of (JInt n) = PyInt"
| "type_of (JFloat f) = PyFloat"
| "type_of (JString s) = PyStr"
| "type_of (JArray xs) = PyList"
| "type_of (JObject kvs) = PyDict"

text \<open>\<open>isinstance(v, t)\<close>: \<open>bool\<close> is a subclass of \<open>int\<close>.\<close>

definition isinstance :: "json \<Rightarrow> pytype \<Rightarrow> bool" where
  "isinstance v t = (type_of v = t \<or> (t = PyInt \<and> type_of v = PyBool))"

text \<open>The integer a value compares as, when \<open>isinstance(v, int)\<close> holds.\<close>

fun as_int :: "json \<Rightarrow> int option" where
  "as_int (JInt n) = Some n"
| "as_int (JBool b) = Some (if b then 1 else 0)"
| "as_int v = None"

text \<open>Exceptions of the Python operations used; none of them is caught by the validator.\<close>

datatype py_exn = TypeError | KeyError | AttributeError

definition exn_bind :: "py_exn + 'a \<Rightarrow> ('a \<Rightarrow> py_exn + 'b) \<Rightarrow> py_exn + 'b" where
  "exn_bind r f = (case r of Inl e \<Rightarrow> Inl e | Inr a \<Rightarrow> f a)"

text \<open>
  \<open>k in c\<close> for a string \<open>k\<close>: key membership in a dict, element membership in a
  list, substring test in a string, \<open>TypeError\<close> otherwise.
\<close>

fun contains :: "string \<Rightarrow> json \<Rightarrow> py_exn + bool" where
  "contains k (JObject kvs) = Inr (map_of kvs k \<noteq> None)"
| "contains k (JArray xs) = Inr (JString k \<in> set xs)"
| "contains k (JString s) = Inr (sublist k s)"
| "contains k v = Inl TypeError"

text \<open>\<open>c[k]\<close> for a string \<open>k\<close>.\<close>

fun subscript :: "json \<Rightarrow> string \<Rightarrow> py_exn + json" where
  "subscript (JObject kvs) k = (case map_of kvs k of None \<Rightarrow> Inl KeyError | Some v \<Rightarrow> Inr v)"
| "subscript v k = Inl TypeError"

text \<open>\<open>d.get(k, default)\<close>.\<close>

fun dict_get :: "json \<Rightarrow> string \<Rightarrow> json \<Rightarrow> py_exn + json" where
  "dict_get (JObject kvs) k d = (case map_of kvs k of None \<Rightarrow> Inr d | Some v \<Rightarrow> Inr v)"
| "dict_get v k d = Inl AttributeError"

text \<open>\<open>len(v)\<close>.\<close>

fun py_len :: "json \<Rightarrow> py_exn + nat" where
  "py_len (JArray xs) = Inr (length xs)"
| "py_len (JString s) = Inr (length s)"
| "py_len (JObject kvs) = Inr (length (remdups (map fst kvs)))"
| "py_len v = Inl TypeError"

text \<open>The guard \<open>k in c\<close> followed, when it holds, by the read \<open>c[k]\<close>.\<close>

definition member_then_get :: "json \<Rightarrow> string \<Rightarrow> py_exn + json option" where
  "member_then_get c k =
     exn_bind (contains k c) (\<lambda>present.
       if present then exn_bind (subscript c k) (\<lambda>v. Inr (Some v)) else Inr None)"

text \<open>\<open>s.removeprefix(p)\<close>.\<close>

definition removeprefix :: "string \<Rightarrow> string \<Rightarrow> string" where
  "removeprefix p s = (if prefix p s then drop (length p) s else s)"

text \<open>
  \<open>bytes.fromhex(s)\<close> returns (rather than raising \<open>ValueError\<close>): runs of ASCII
  whitespace are skipped before each byte, and each byte is two adjacent hexadecimal
  digits.
\<close>

definition is_space :: "char \<Rightarrow> bool" where
  "is_space c = (c \<in> set [CHR 0x09, CHR 0x0A, CHR 0x0B, CHR 0x0C, CHR 0x0D, CHR '' ''])"

definition is_hexdigit :: "char \<Rightarrow> bool" where
  "is_hexdigit c = (c \<in> set ''0123456789abcdefABCDEF'')"

fun fromhex_ok :: "string \<Rightarrow> bool" where
  "fromhex_ok [] = True"
| "fromhex_ok (c # cs) =
     (if is_space c then fromhex_ok cs
      else is_hexdigit c \<and> (case cs of [] \<Rightarrow> False | d # ds \<Rightarrow> is_hexdigit d \<and> fromhex_ok ds))"

section \<open>The validator\<close>

text \<open>
  One constructor per message format of the source; the arguments are the values the
  f-string interpolates.
\<close>

datatype verror =
    MissingTopLevel
      \<comment> \<open>Missing top-level 'attestation' field\<close>
  | MissingRequired string string
      \<comment> \<open>Missing required field: FIELD (DESCRIPTION)\<close>
  | WrongType string pytype pytype
      \<comment> \<open>Field 'FIELD' has wrong type: expected T, got T'\<close>
  | SubMissing string string
      \<comment> \<open>PARENT missing 'KEY' field\<close>
  | SubNot32 string string nat
      \<comment> \<open>PARENT.KEY must be array of 32 bytes, got N bytes\<close>
  | MessageHashNot32 "nat option"
      \<comment> \<open>message_hash must be array of 32 bytes, got N (None: 'non-array')\<close>
  | MessageHashByte nat json
      \<comment> \<open>message_hash[I] must be byte (0-255), got VALUE\<close>
  | HexLength nat
      \<comment> \<open>account_id_hash hex string must be 64 chars (32 bytes), got N\<close>
  | NotHex string
      \<comment> \<open>account_id_hash is not valid hex: VALUE\<close>
  | ArrayLength nat
      \<comment> \<open>account_id_hash array must be 32 bytes, got N\<close>
  | BadKind pytype
      \<comment> \<open>account_id_hash must be hex string or byte array, got T\<close>
  | BalanceNegative
      \<comment> \<open>balance_raw must be non-negative\<close>
  | CurrencyNotU32
      \<comment> \<open>currency_code_int must fit in u32\<close>
  | CustodianNotU32
      \<comment> \<open>custodian_id must fit in u32\<close>

text \<open>
  Each step below returns the errors it appends to \<open>errors\<close>, or the exception it
  raises; \<open>then_append\<close> runs two steps in order.
\<close>

definition then_append ::
  "py_exn + verror list \<Rightarrow> py_exn + verror list \<Rightarrow> py_exn + verror list" where
  "then_append a b =
     (case a of Inl e \<Rightarrow> Inl e
      | Inr xs \<Rightarrow> (case b of Inl e \<Rightarrow> Inl e | Inr ys \<Rightarrow> Inr (xs @ ys)))"

definition required_fields :: "(string \<times> pytype \<times> string) list" where
  "required_fields =
    [(''balance_raw'', PyInt, ''u64''),
     (''currency_code_int'', PyInt, ''u32''),
     (''custodian_id'', PyInt, ''u32''),
     (''attestation_id'', PyInt, ''u64''),
     (''issued_at'', PyInt, ''u64''),
     (''valid_until'', PyInt, ''u64''),
     (''account_id_hash'', PyStr, ''32-byte hex or array''),
     (''custodian_pubkey'', PyDict, ''object with x, y''),
     (''signature'', PyDict, ''object with r, s''),
     (''message_hash'', PyList, ''32-byte array'')]"

text \<open>Lines 42-51: the body of the loop over \<open>required_fields\<close>, and the loop.\<close>

fun check_field :: "json \<Rightarrow> string \<times> pytype \<times> string \<Rightarrow> py_exn + verror list" where
  "check_field att (field, expected_type, description) =
     exn_bind (member_then_get att field) (\<lambda>r.
       case r of
         None \<Rightarrow> Inr [MissingRequired field description]
       | Some v \<Rightarrow>
           if \<not> isinstance v expected_type
           then Inr [WrongType field expected_type (type_of v)]
           else Inr [])"

fun check_fields :: "json \<Rightarrow> (string \<times> pytype \<times> string) list \<Rightarrow> py_exn + verror list" where
  "check_fields att [] = Inr []"
| "check_fields att (f # fs) = then_append (check_field att f) (check_fields att fs)"

text \<open>
  Lines 56-59, 61-64, 69-72, 74-77: the check of one coordinate \<open>key\<close> of the dict
  \<open>obj\<close> found under \<open>parent\<close>. The message reads \<open>len(obj.get(key, []))\<close>.
\<close>

definition check_coordinate :: "string \<Rightarrow> string \<Rightarrow> json \<Rightarrow> py_exn + verror list" where
  "check_coordinate parent key obj =
     exn_bind (contains key obj) (\<lambda>present.
       if \<not> present then Inr [SubMissing parent key]
       else exn_bind (subscript obj key) (\<lambda>v.
         if \<not> isinstance v PyList \<or> py_len v \<noteq> Inr 32
         then exn_bind (dict_get obj key (JArray [])) (\<lambda>w.
                exn_bind (py_len w) (\<lambda>n. Inr [SubNot32 parent key n]))
         else Inr []))"

text \<open>Lines 54-64 and 67-77.\<close>

definition check_pair :: "string \<Rightarrow> string \<Rightarrow> string \<Rightarrow> json \<Rightarrow> py_exn + verror list" where
  "check_pair parent key1 key2 att =
     exn_bind (member_then_get att parent) (\<lambda>r.
       case r of
         None \<Rightarrow> Inr []
       | Some obj \<Rightarrow>
           if isinstance obj PyDict
           then then_append (check_coordinate parent key1 obj) (check_coordinate parent key2 obj)
           else Inr [])"

definition check_custodian_pubkey :: "json \<Rightarrow> py_exn + verror list" where
  "check_custodian_pubkey att = check_pair ''custodian_pubkey'' ''x'' ''y'' att"

definition check_signature :: "json \<Rightarrow> py_exn + verror list" where
  "check_signature att = check_pair ''signature'' ''r'' ''s'' att"

text \<open>Lines 80-88. The loop over \<open>enumerate(mh)\<close> breaks at the first bad element.\<close>

definition is_byte :: "json \<Rightarrow> bool" where
  "is_byte b = (case as_int b of None \<Rightarrow> False | Some n \<Rightarrow> 0 \<le> n \<and> n \<le> 255)"

fun scan_bytes :: "nat \<Rightarrow> json list \<Rightarrow> verror list" where
  "scan_bytes i [] = []"
| "scan_bytes i (byte # rest) =
     (if \<not> is_byte byte then [MessageHashByte i byte] else scan_bytes (Suc i) rest)"

definition check_message_hash :: "json \<Rightarrow> py_exn + verror list" where
  "check_message_hash att =
     exn_bind (member_then_get att ''message_hash'') (\<lambda>r.
       case r of
         None \<Rightarrow> Inr []
       | Some mh \<Rightarrow>
           (case mh of
              JArray xs \<Rightarrow>
                if length xs \<noteq> 32 then Inr [MessageHashNot32 (Some (length xs))]
                else Inr (scan_bytes 0 xs)
            | _ \<Rightarrow> Inr [MessageHashNot32 None]))"

text \<open>Lines 91-106.\<close>

definition check_account_id_hash :: "json \<Rightarrow> py_exn + verror list" where
  "check_account_id_hash att =
     exn_bind (member_then_get att ''account_id_hash'') (\<lambda>r.
       case r of
         None \<Rightarrow> Inr []
       | Some aih \<Rightarrow>
           (case aih of
              JString s \<Rightarrow>
                (let hex_str = removeprefix ''0X'' (removeprefix ''0x'' s)
                 in Inr ((if length hex_str \<noteq> 64 then [HexLength (length hex_str)] else [])
                         @ (if fromhex_ok hex_str then [] else [NotHex s])))
            | JArray xs \<Rightarrow> Inr (if length xs \<noteq> 32 then [ArrayLength (length xs)] else [])
            | _ \<Rightarrow> Inr [BadKind (type_of aih)]))"

text \<open>Lines 109-119.\<close>

definition check_range :: "string \<Rightarrow> (int \<Rightarrow> bool) \<Rightarrow> verror \<Rightarrow> json \<Rightarrow> py_exn + verror list" where
  "check_range field bad err att =
     exn_bind (member_then_get att field) (\<lambda>r.
       case r of
         None \<Rightarrow> Inr []
       | Some v \<Rightarrow>
           (case as_int v of
              None \<Rightarrow> Inr []
            | Some n \<Rightarrow> if bad n then Inr [err] else Inr []))"

definition check_balance_raw :: "json \<Rightarrow> py_exn + verror list" where
  "check_balance_raw att = check_range ''balance_raw'' (\<lambda>n. n < 0) BalanceNegative att"

definition check_currency_code_int :: "json \<Rightarrow> py_exn + verror list" where
  "check_currency_code_int att =
     check_range ''currency_code_int'' (\<lambda>n. n < 0 \<or> n > 0xFFFFFFFF) CurrencyNotU32 att"

definition check_custodian_id :: "json \<Rightarrow> py_exn + verror list" where
  "check_custodian_id att =
     check_range ''custodian_id'' (\<lambda>n. n < 0 \<or> n > 0xFFFFFFFF) CustodianNotU32 att"

text \<open>Lines 17-121.\<close>

definition validate_attestation :: "json \<Rightarrow> py_exn + verror list" where
  "validate_attestation attestation_data =
     exn_bind (contains ''attestation'' attestation_data) (\<lambda>present.
       if \<not> present then Inr [MissingTopLevel]
       else exn_bind (subscript attestation_data ''attestation'') (\<lambda>att.
         then_append (check_fields att required_fields)
        (then_append (check_custodian_pubkey att)
        (then_append (check_signature att)
        (then_append (check_message_hash att)
        (then_append (check_account_id_hash att)
        (then_append (check_balance_raw att)
        (then_append (check_currency_code_int att)
                     (check_custodian_id att)))))))))"

section \<open>Reading documents, and the properties stated about the validator\<close>

text \<open>The value stored under a key of a JSON object; nothing for any other value.\<close>

definition field_of :: "json \<Rightarrow> string \<Rightarrow> json option" where
  "field_of v k = (case v of JObject kvs \<Rightarrow> map_of kvs k | _ \<Rightarrow> None)"

definition attestation_of :: "json \<Rightarrow> json option" where
  "attestation_of doc = field_of doc ''attestation''"

definition int_field :: "json \<Rightarrow> string \<Rightarrow> int option" where
  "int_field att k = Option.bind (field_of att k) as_int"

subsection \<open>What the validator accepts\<close>

definition array_of_32 :: "json option \<Rightarrow> bool" where
  "array_of_32 v = (case v of Some (JArray xs) \<Rightarrow> length xs = 32 | _ \<Rightarrow> False)"

definition pair_of_arrays :: "string \<Rightarrow> string \<Rightarrow> json option \<Rightarrow> bool" where
  "pair_of_arrays k1 k2 v =
     (case v of
        Some (JObject kvs) \<Rightarrow> array_of_32 (map_of kvs k1) \<and> array_of_32 (map_of kvs k2)
      | _ \<Rightarrow> False)"

definition byte_array_32 :: "json option \<Rightarrow> bool" where
  "byte_array_32 v =
     (case v of Some (JArray xs) \<Rightarrow> length xs = 32 \<and> list_all is_byte xs | _ \<Rightarrow> False)"

definition decodable_hex_64 :: "json option \<Rightarrow> bool" where
  "decodable_hex_64 v =
     (case v of
        Some (JString s) \<Rightarrow>
          length (removeprefix ''0X'' (removeprefix ''0x'' s)) = 64
          \<and> fromhex_ok (removeprefix ''0X'' (removeprefix ''0x'' s))
      | _ \<Rightarrow> False)"

definition int_within :: "int \<Rightarrow> int \<Rightarrow> int option \<Rightarrow> bool" where
  "int_within lo hi v = (case v of None \<Rightarrow> False | Some n \<Rightarrow> lo \<le> n \<and> n \<le> hi)"

definition att_accepted :: "json \<Rightarrow> bool" where
  "att_accepted att =
     (int_field att ''balance_raw'' \<noteq> None
      \<and> int_field att ''currency_code_int'' \<noteq> None
      \<and> int_field att ''custodian_id'' \<noteq> None
      \<and> int_field att ''attestation_id'' \<noteq> None
      \<and> int_field att ''issued_at'' \<noteq> None
      \<and> int_field att ''valid_until'' \<noteq> None
      \<and> decodable_hex_64 (field_of att ''account_id_hash'')
      \<and> pair_of_arrays ''x'' ''y'' (field_of att ''custodian_pubkey'')
      \<and> pair_of_arrays ''r'' ''s'' (field_of att ''signature'')
      \<and> byte_array_32 (field_of att ''message_hash'')
      \<and> (case int_field att ''balance_raw'' of None \<Rightarrow> False | Some n \<Rightarrow> 0 \<le> n)
      \<and> int_within 0 (2 ^ 32 - 1) (int_field att ''currency_code_int'')
      \<and> int_within 0 (2 ^ 32 - 1) (int_field att ''custodian_id''))"

definition code_accepts :: "json \<Rightarrow> bool" where
  "code_accepts doc = (case attestation_of doc of None \<Rightarrow> False | Some att \<Rightarrow> att_accepted att)"

definition account_id_hash_is_array :: "json \<Rightarrow> bool" where
  "account_id_hash_is_array doc =
     (case attestation_of doc of
        None \<Rightarrow> False
      | Some att \<Rightarrow> (case field_of att ''account_id_hash'' of Some (JArray xs) \<Rightarrow> True | _ \<Rightarrow> False))"

subsection \<open>The invariants of section 3 of the specification, in its words\<close>

definition spec_integer :: "json option \<Rightarrow> bool" where
  "spec_integer v = (case v of Some (JInt n) \<Rightarrow> True | _ \<Rightarrow> False)"

definition spec_integer_within :: "int \<Rightarrow> int \<Rightarrow> json option \<Rightarrow> bool" where
  "spec_integer_within lo hi v = (case v of Some (JInt n) \<Rightarrow> lo \<le> n \<and> n \<le> hi | _ \<Rightarrow> False)"

definition spec_non_negative :: "json option \<Rightarrow> bool" where
  "spec_non_negative v = (case v of Some (JInt n) \<Rightarrow> 0 \<le> n | _ \<Rightarrow> False)"

definition spec_byte :: "json \<Rightarrow> bool" where
  "spec_byte b = (case b of JInt n \<Rightarrow> 0 \<le> n \<and> n \<le> 255 | _ \<Rightarrow> False)"

definition spec_byte_array :: "json option \<Rightarrow> bool" where
  "spec_byte_array v =
     (case v of Some (JArray xs) \<Rightarrow> length xs = 32 \<and> list_all spec_byte xs | _ \<Rightarrow> False)"

text \<open>Strip one optional leading \<open>0x\<close> or \<open>0X\<close>.\<close>

definition strip_one_prefix :: "string \<Rightarrow> string" where
  "strip_one_prefix s = (if prefix ''0x'' s \<or> prefix ''0X'' s then drop 2 s else s)"

definition spec_hex_string :: "string \<Rightarrow> bool" where
  "spec_hex_string s =
     (length (strip_one_prefix s) = 64 \<and> list_all is_hexdigit (strip_one_prefix s))"

definition spec_account_id_hash :: "json option \<Rightarrow> bool" where
  "spec_account_id_hash v =
     (case v of
        Some (JString s) \<Rightarrow> spec_hex_string s
      | Some (JArray xs) \<Rightarrow> spec_byte_array v
      | _ \<Rightarrow> False)"

definition spec_byte_pair :: "string \<Rightarrow> string \<Rightarrow> json option \<Rightarrow> bool" where
  "spec_byte_pair k1 k2 v =
     (case v of
        Some (JObject kvs) \<Rightarrow> spec_byte_array (map_of kvs k1) \<and> spec_byte_array (map_of kvs k2)
      | _ \<Rightarrow> False)"

definition section3_invariants :: "json \<Rightarrow> bool" where
  "section3_invariants doc =
     (case attestation_of doc of
        Some (JObject kvs) \<Rightarrow>
          (let att = JObject kvs in
             spec_integer (field_of att ''balance_raw'')
           \<and> spec_integer (field_of att ''currency_code_int'')
           \<and> spec_integer (field_of att ''custodian_id'')
           \<and> spec_integer (field_of att ''attestation_id'')
           \<and> spec_integer (field_of att ''issued_at'')
           \<and> spec_integer (field_of att ''valid_until'')
           \<and> spec_account_id_hash (field_of att ''account_id_hash'')
           \<and> spec_byte_pair ''x'' ''y'' (field_of att ''custodian_pubkey'')
           \<and> spec_byte_pair ''r'' ''s'' (field_of att ''signature'')
           \<and> spec_byte_array (field_of att ''message_hash'')
           \<and> spec_non_negative (field_of att ''balance_raw'')
           \<and> spec_integer_within 0 (2 ^ 32 - 1) (field_of att ''currency_code_int'')
           \<and> spec_integer_within 0 (2 ^ 32 - 1) (field_of att ''custodian_id''))
      | _ \<Rightarrow> False)"

subsection \<open>Classifying the reported errors\<close>

text \<open>The step of the validator that emits an error.\<close>

datatype step =
    TopLevel | RequiredFields | Coordinates | MessageHash | AccountIdHash
  | BalanceRaw | CurrencyCodeInt | CustodianId

fun step_of :: "verror \<Rightarrow> step" where
  "step_of MissingTopLevel = TopLevel"
| "step_of (MissingRequired f d) = RequiredFields"
| "step_of (WrongType f t t') = RequiredFields"
| "step_of (SubMissing p k) = Coordinates"
| "step_of (SubNot32 p k n) = Coordinates"
| "step_of (MessageHashNot32 n) = MessageHash"
| "step_of (MessageHashByte i v) = MessageHash"
| "step_of (HexLength n) = AccountIdHash"
| "step_of (NotHex s) = AccountIdHash"
| "step_of (ArrayLength n) = AccountIdHash"
| "step_of (BadKind t) = AccountIdHash"
| "step_of BalanceNegative = BalanceRaw"
| "step_of CurrencyNotU32 = CurrencyCodeInt"
| "step_of CustodianNotU32 = CustodianId"

text \<open>The field a presence or type error of the required-field pass names.\<close>

fun error_field :: "verror \<Rightarrow> string option" where
  "error_field (MissingRequired f d) = Some f"
| "error_field (WrongType f t t') = Some f"
| "error_field e = None"

text \<open>What the required-field pass owes one field, given the attestation dict.\<close>

fun presence_type_error :: "(string \<Rightarrow> json option) \<Rightarrow> string \<times> pytype \<times> string \<Rightarrow> verror list" where
  "presence_type_error m (f, t, d) =
     (case m f of
        None \<Rightarrow> [MissingRequired f d]
      | Some v \<Rightarrow> if isinstance v t then [] else [WrongType f t (type_of v)])"

text \<open>The element-level errors of \<open>message_hash\<close>.\<close>

fun is_element_error :: "verror \<Rightarrow> bool" where
  "is_element_error (MessageHashByte i v) = True"
| "is_element_error e = False"

text \<open>The errors that concern \<open>account_id_hash\<close>, from any step.\<close>

definition about_account_id_hash :: "verror \<Rightarrow> bool" where
  "about_account_id_hash e = (step_of e = AccountIdHash \<or> error_field e = Some ''account_id_hash'')"

subsection \<open>Sample documents\<close>

definition bytes32 :: json where
  "bytes32 = JArray (replicate 32 (JInt 7))"

definition hex64 :: string where
  "hex64 = replicate 64 CHR ''a''"

definition sample_att :: "(string \<times> json) list" where
  "sample_att =
    [(''balance_raw'', JInt 1000),
     (''currency_code_int'', JInt 840),
     (''custodian_id'', JInt 1),
     (''attestation_id'', JInt 42),
     (''issued_at'', JInt 1700000000),
     (''valid_until'', JInt 1800000000),
     (''account_id_hash'', JString hex64),
     (''custodian_pubkey'', JObject [(''x'', bytes32), (''y'', bytes32)]),
     (''signature'', JObject [(''r'', bytes32), (''s'', bytes32)]),
     (''message_hash'', bytes32)]"

definition document :: "(string \<times> json) list \<Rightarrow> json" where
  "document att = JObject [(''attestation'', JObject att)]"

definition sample_doc :: json where
  "sample_doc = document sample_att"

text \<open>The sample document with one field of the attestation replaced.\<close>

definition sample_with :: "string \<Rightarrow> json \<Rightarrow> json" where
  "sample_with k v = document (AList.update k v sample_att)"

text \<open>The sample document with element 5 of \<open>custodian_pubkey.x\<close> set to 256.\<close>

definition pubkey_x_out_of_range :: json where
  "pubkey_x_out_of_range =
     sample_with ''custodian_pubkey''
       (JObject [(''x'', JArray ((replicate 32 (JInt 7))[5 := JInt 256])), (''y'', bytes32)])"

text \<open>The sample document with \<open>custodian_pubkey.x\<close> set to the number 5.\<close>

definition pubkey_x_number :: json where
  "pubkey_x_number =
     sample_with ''custodian_pubkey'' (JObject [(''x'', JInt 5), (''y'', bytes32)])"

text \<open>The sample document with \<open>signature.r\<close> set to \<open>null\<close>.\<close>

definition signature_r_null :: json where
  "signature_r_null =
     sample_with ''signature'' (JObject [(''r'', JNull), (''s'', bytes32)])"

section \<open>Auxiliary facts\<close>

lemma field_of_simps [simp]:
  "field_of (JObject kvs) k = map_of kvs k"
  "field_of JNull k = None" "field_of (JBool b) k = None" "field_of (JInt n) k = None"
  "field_of (JFloat f) k = None" "field_of (JString s) k = None" "field_of (JArray xs) k = None"
  by (simp_all add: field_of_def)

lemma field_of_Some: "field_of c k = Some v \<Longrightarrow> \<exists>kvs. c = JObject kvs \<and> map_of kvs k = Some v"
  by (cases c) simp_all

lemma exn_bind_simps [simp]:
  "exn_bind (Inl e) f = Inl e" "exn_bind (Inr a) f = f a"
  by (simp_all add: exn_bind_def)

lemma then_append_simps [simp]:
  "then_append (Inl e) b = Inl e"
  "then_append (Inr xs) (Inl e) = Inl e"
  "then_append (Inr xs) (Inr ys) = Inr (xs @ ys)"
  by (simp_all add: then_append_def)

lemma then_append_eq_Inr:
  "then_append a b = Inr zs \<longleftrightarrow> (\<exists>xs ys. a = Inr xs \<and> b = Inr ys \<and> zs = xs @ ys)"
  by (cases a; cases b) auto

lemma then_append_eq_Nil:
  "then_append a b = Inr [] \<longleftrightarrow> a = Inr [] \<and> b = Inr []"
  by (cases a; cases b) auto

lemma member_then_get_object [simp]:
  "member_then_get (JObject kvs) k = Inr (map_of kvs k)"
  by (cases "map_of kvs k") (simp_all add: member_then_get_def)

lemma member_then_get_array:
  "member_then_get (JArray xs) k = (if JString k \<in> set xs then Inl TypeError else Inr None)"
  by (simp add: member_then_get_def)

lemma member_then_get_string:
  "member_then_get (JString s) k = (if sublist k s then Inl TypeError else Inr None)"
  by (simp add: member_then_get_def)

lemma member_then_get_scalar [simp]:
  "member_then_get JNull k = Inl TypeError" "member_then_get (JBool b) k = Inl TypeError"
  "member_then_get (JInt n) k = Inl TypeError" "member_then_get (JFloat f) k = Inl TypeError"
  by (simp_all add: member_then_get_def)

lemma member_then_get_Inr: "member_then_get c k = Inr r \<Longrightarrow> r = field_of c k"
  by (cases c) (auto simp: member_then_get_array member_then_get_string split: if_splits)

lemma isinstance_int: "isinstance v PyInt \<longleftrightarrow> as_int v \<noteq> None"
  by (cases v) (simp_all add: isinstance_def)

lemma isinstance_list: "isinstance v PyList \<longleftrightarrow> (\<exists>xs. v = JArray xs)"
  by (cases v) (simp_all add: isinstance_def)

lemma isinstance_dict: "isinstance v PyDict \<longleftrightarrow> (\<exists>kvs. v = JObject kvs)"
  by (cases v) (simp_all add: isinstance_def)

lemma isinstance_str: "isinstance v PyStr \<longleftrightarrow> (\<exists>s. v = JString s)"
  by (cases v) (simp_all add: isinstance_def)

subsection \<open>The required-field pass\<close>

lemma check_field_object:
  "check_field (JObject kvs) fld = Inr (presence_type_error (map_of kvs) fld)"
  by (cases fld) (simp split: option.splits)

lemma check_fields_object:
  "check_fields (JObject kvs) fs = Inr (concat (map (presence_type_error (map_of kvs)) fs))"
  by (induction fs) (simp_all add: check_field_object)

lemma check_field_Inr:
  "check_field att fld = Inr es \<Longrightarrow> es = presence_type_error (field_of att) fld"
  by (cases fld) (auto simp: exn_bind_def split: sum.splits option.splits dest!: member_then_get_Inr)

lemma check_fields_Inr:
  "check_fields att fs = Inr es \<Longrightarrow> es = concat (map (presence_type_error (field_of att)) fs)"
  by (induction fs arbitrary: es) (auto simp: then_append_eq_Inr dest: check_field_Inr)

lemma presence_type_error_step: "e \<in> set (presence_type_error m fld) \<Longrightarrow> step_of e = RequiredFields"
  by (cases fld) (auto split: option.splits if_splits)

lemma presence_type_error_field:
  "e \<in> set (presence_type_error m fld) \<Longrightarrow> error_field e = Some (fst fld)"
  by (cases fld) (auto split: option.splits if_splits)

lemma filter_presence_type_error:
  "distinct (map fst fs) \<Longrightarrow> (f, t, d) \<in> set fs \<Longrightarrow>
   filter (\<lambda>e. error_field e = Some f) (concat (map (presence_type_error m) fs))
     = presence_type_error m (f, t, d)"
proof (induction fs)
  case Nil
  then show ?case by simp
next
  case (Cons g gs)
  show ?case
  proof (cases "g = (f, t, d)")
    case True
    have "f \<notin> fst ` set gs" using Cons.prems(1) True by simp
    then have "\<forall>h\<in>set gs. \<forall>e\<in>set (presence_type_error m h). error_field e \<noteq> Some f"
      by (metis presence_type_error_field imageI option.inject)
    then have "filter (\<lambda>e. error_field e = Some f) (concat (map (presence_type_error m) gs)) = []"
      by (auto simp: filter_empty_conv simp del: presence_type_error.simps)
    moreover have "filter (\<lambda>e. error_field e = Some f) (presence_type_error m (f, t, d))
        = presence_type_error m (f, t, d)"
      using presence_type_error_field [of _ m "(f, t, d)"]
      by (auto simp: filter_id_conv simp del: presence_type_error.simps)
    ultimately show ?thesis using True by (simp del: presence_type_error.simps)
  next
    case False
    then have in_gs: "(f, t, d) \<in> set gs" using Cons.prems(2) by simp
    then have "f \<in> fst ` set gs" by force
    then have "fst g \<noteq> f" using Cons.prems(1) by auto
    then have "filter (\<lambda>e. error_field e = Some f) (presence_type_error m g) = []"
      using presence_type_error_field [of _ m g]
      by (auto simp: filter_empty_conv simp del: presence_type_error.simps)
    then show ?thesis using Cons.IH in_gs Cons.prems(1) by simp
  qed
qed

lemma distinct_required_fields: "distinct (map fst required_fields)"
  by (simp add: required_fields_def)

subsection \<open>The coordinate checks\<close>

lemma check_coordinate_object:
  "check_coordinate p k (JObject kvs) =
     (case map_of kvs k of
        None \<Rightarrow> Inr [SubMissing p k]
      | Some v \<Rightarrow>
          (case v of
             JArray xs \<Rightarrow> Inr (if length xs = 32 then [] else [SubNot32 p k (length xs)])
           | _ \<Rightarrow> exn_bind (py_len v) (\<lambda>n. Inr [SubNot32 p k n])))"
proof (cases "map_of kvs k")
  case None
  then show ?thesis by (simp add: check_coordinate_def)
next
  case (Some v)
  then show ?thesis by (cases v) (simp_all add: check_coordinate_def isinstance_def)
qed

lemma check_coordinate_Nil:
  "check_coordinate p k (JObject kvs) = Inr [] \<longleftrightarrow> array_of_32 (map_of kvs k)"
proof (cases "map_of kvs k")
  case None
  then show ?thesis by (simp add: check_coordinate_object array_of_32_def)
next
  case (Some v)
  then show ?thesis
    by (cases v) (auto simp: check_coordinate_object array_of_32_def exn_bind_def split: sum.splits)
qed

lemma check_coordinate_step:
  "check_coordinate p k obj = Inr es \<Longrightarrow> e \<in> set es \<Longrightarrow> step_of e = Coordinates"
  by (auto simp: check_coordinate_def exn_bind_def split: sum.splits if_splits)

lemma check_pair_object:
  "check_pair p k1 k2 (JObject kvs) =
     (case map_of kvs p of
        Some (JObject obj) \<Rightarrow>
          then_append (check_coordinate p k1 (JObject obj)) (check_coordinate p k2 (JObject obj))
      | _ \<Rightarrow> Inr [])"
proof (cases "map_of kvs p")
  case None
  then show ?thesis by (simp add: check_pair_def)
next
  case (Some v)
  then show ?thesis by (cases v) (simp_all add: check_pair_def isinstance_def)
qed

lemma check_pair_step:
  "check_pair p k1 k2 att = Inr es \<Longrightarrow> e \<in> set es \<Longrightarrow> step_of e = Coordinates"
  by (auto simp: check_pair_def exn_bind_def then_append_eq_Inr
      split: sum.splits option.splits if_splits dest: check_coordinate_step)

lemma check_pair_Nil:
  "map_of kvs p = Some obj \<Longrightarrow> isinstance obj PyDict \<Longrightarrow>
   check_pair p k1 k2 (JObject kvs) = Inr [] \<longleftrightarrow> pair_of_arrays k1 k2 (Some obj)"
  by (auto simp: isinstance_dict check_pair_object then_append_eq_Nil check_coordinate_Nil
      pair_of_arrays_def)

subsection \<open>The scan of \<open>message_hash\<close>\<close>

lemma scan_bytes_Nil: "scan_bytes i xs = [] \<longleftrightarrow> list_all is_byte xs"
  by (induction xs arbitrary: i) auto

lemma scan_bytes_first:
  "j < length xs \<Longrightarrow> \<not> is_byte (xs ! j) \<Longrightarrow> \<forall>k<j. is_byte (xs ! k) \<Longrightarrow>
   scan_bytes i xs = [MessageHashByte (i + j) (xs ! j)]"
proof (induction xs arbitrary: i j)
  case Nil
  then show ?case by simp
next
  case (Cons x xs)
  show ?case
  proof (cases j)
    case 0
    then show ?thesis using Cons.prems by simp
  next
    case (Suc j')
    have "is_byte x" using Cons.prems(3) Suc by auto
    moreover have "scan_bytes (Suc i) xs = [MessageHashByte (Suc i + j') (xs ! j')]"
      using Cons.prems Suc by (intro Cons.IH) auto
    ultimately show ?thesis using Suc by simp
  qed
qed

lemma scan_bytes_step: "e \<in> set (scan_bytes i xs) \<Longrightarrow> step_of e = MessageHash"
  by (induction xs arbitrary: i) (auto split: if_splits)

lemma scan_bytes_length: "length (scan_bytes i xs) \<le> 1"
  by (induction xs arbitrary: i) auto

lemma scan_bytes_element: "e \<in> set (scan_bytes i xs) \<Longrightarrow> is_element_error e"
  by (induction xs arbitrary: i) (auto split: if_splits)

lemma check_message_hash_Inr:
  "check_message_hash att = Inr es \<Longrightarrow> field_of att ''message_hash'' = Some (JArray xs) \<Longrightarrow>
   length xs = 32 \<Longrightarrow> es = scan_bytes 0 xs"
  by (auto simp: check_message_hash_def exn_bind_def split: sum.splits dest!: member_then_get_Inr)

lemma check_message_hash_step:
  "check_message_hash att = Inr es \<Longrightarrow> e \<in> set es \<Longrightarrow> step_of e = MessageHash"
  by (auto simp: check_message_hash_def exn_bind_def
      split: sum.splits option.splits json.splits if_splits dest: scan_bytes_step)

lemma check_message_hash_Nil:
  "map_of kvs ''message_hash'' = Some v \<Longrightarrow>
   check_message_hash (JObject kvs) = Inr [] \<longleftrightarrow> byte_array_32 (Some v)"
  by (cases v) (auto simp: check_message_hash_def byte_array_32_def scan_bytes_Nil)

subsection \<open>The format of \<open>account_id_hash\<close>\<close>

lemma check_account_id_hash_string:
  "check_account_id_hash att = Inr es \<Longrightarrow> field_of att ''account_id_hash'' = Some (JString s) \<Longrightarrow>
   es = (if length (removeprefix ''0X'' (removeprefix ''0x'' s)) \<noteq> 64
         then [HexLength (length (removeprefix ''0X'' (removeprefix ''0x'' s)))] else [])
        @ (if fromhex_ok (removeprefix ''0X'' (removeprefix ''0x'' s)) then [] else [NotHex s])"
  by (auto simp: check_account_id_hash_def exn_bind_def Let_def
      split: sum.splits dest!: member_then_get_Inr)

lemma check_account_id_hash_step:
  "check_account_id_hash att = Inr es \<Longrightarrow> e \<in> set es \<Longrightarrow> step_of e = AccountIdHash"
  by (auto simp: check_account_id_hash_def exn_bind_def Let_def
      split: sum.splits option.splits json.splits if_splits)

lemma check_account_id_hash_Nil:
  "map_of kvs ''account_id_hash'' = Some v \<Longrightarrow> isinstance v PyStr \<Longrightarrow>
   check_account_id_hash (JObject kvs) = Inr [] \<longleftrightarrow> decodable_hex_64 (Some v)"
  by (auto simp: isinstance_str check_account_id_hash_def decodable_hex_64_def Let_def
      split: if_splits)

subsection \<open>The numeric ranges\<close>

lemma check_range_Inr:
  "check_range f bad err att = Inr es \<Longrightarrow>
   es = (case int_field att f of None \<Rightarrow> [] | Some n \<Rightarrow> if bad n then [err] else [])"
proof -
  assume a: "check_range f bad err att = Inr es"
  then obtain r where r: "member_then_get att f = Inr r"
    by (cases "member_then_get att f") (simp_all add: check_range_def)
  then have "r = field_of att f" by (rule member_then_get_Inr)
  with a r show ?thesis
    by (cases "field_of att f") (auto simp: check_range_def int_field_def split: option.splits)
qed

lemma check_range_object:
  "check_range f bad err (JObject kvs) =
     Inr (case int_field (JObject kvs) f of None \<Rightarrow> [] | Some n \<Rightarrow> if bad n then [err] else [])"
  by (auto simp: check_range_def int_field_def split: option.splits)

subsection \<open>The whole validator\<close>

lemma validate_attestation_object:
  "validate_attestation (JObject outer) =
     (case map_of outer ''attestation'' of
        None \<Rightarrow> Inr [MissingTopLevel]
      | Some att \<Rightarrow>
         then_append (check_fields att required_fields)
        (then_append (check_custodian_pubkey att)
        (then_append (check_signature att)
        (then_append (check_message_hash att)
        (then_append (check_account_id_hash att)
        (then_append (check_balance_raw att)
        (then_append (check_currency_code_int att)
                     (check_custodian_id att))))))))"
  by (cases "map_of outer ''attestation''") (simp_all add: validate_attestation_def)

lemma validate_attestation_not_object:
  "attestation_of doc = None \<Longrightarrow> validate_attestation doc = Inr errs \<Longrightarrow> errs = [MissingTopLevel]"
  by (cases doc)
    (auto simp: validate_attestation_def attestation_of_def split: if_splits)

lemma validate_attestation_steps:
  assumes "validate_attestation doc = Inr errs" and "attestation_of doc = Some att"
  shows "\<exists>e1 e2 e3 e4 e5 e6 e7 e8.
           errs = e1 @ e2 @ e3 @ e4 @ e5 @ e6 @ e7 @ e8
         \<and> check_fields att required_fields = Inr e1
         \<and> check_custodian_pubkey att = Inr e2
         \<and> check_signature att = Inr e3
         \<and> check_message_hash att = Inr e4
         \<and> check_account_id_hash att = Inr e5
         \<and> check_balance_raw att = Inr e6
         \<and> check_currency_code_int att = Inr e7
         \<and> check_custodian_id att = Inr e8"
proof -
  obtain outer where outer: "doc = JObject outer" "map_of outer ''attestation'' = Some att"
    using assms(2) unfolding attestation_of_def by (auto dest: field_of_Some)
  show ?thesis
    using assms(1) unfolding outer(1) validate_attestation_object
    by (simp add: outer(2) then_append_eq_Inr) blast
qed

lemma validate_attestation_step_filter:
  assumes "validate_attestation doc = Inr errs" and "attestation_of doc = Some att"
  shows "check_fields att required_fields = Inr (filter (\<lambda>e. step_of e = RequiredFields) errs)"
    and "check_message_hash att = Inr (filter (\<lambda>e. step_of e = MessageHash) errs)"
    and "check_account_id_hash att = Inr (filter (\<lambda>e. step_of e = AccountIdHash) errs)"
    and "check_balance_raw att = Inr (filter (\<lambda>e. step_of e = BalanceRaw) errs)"
    and "check_currency_code_int att = Inr (filter (\<lambda>e. step_of e = CurrencyCodeInt) errs)"
    and "check_custodian_id att = Inr (filter (\<lambda>e. step_of e = CustodianId) errs)"
proof -
  obtain e1 e2 e3 e4 e5 e6 e7 e8 where
    errs: "errs = e1 @ e2 @ e3 @ e4 @ e5 @ e6 @ e7 @ e8" and
    s1: "check_fields att required_fields = Inr e1" and
    s2: "check_custodian_pubkey att = Inr e2" and
    s3: "check_signature att = Inr e3" and
    s4: "check_message_hash att = Inr e4" and
    s5: "check_account_id_hash att = Inr e5" and
    s6: "check_balance_raw att = Inr e6" and
    s7: "check_currency_code_int att = Inr e7" and
    s8: "check_custodian_id att = Inr e8"
    using validate_attestation_steps [OF assms] by blast
  have t1: "\<forall>e\<in>set e1. step_of e = RequiredFields"
    using check_fields_Inr [OF s1] by (auto dest: presence_type_error_step)
  have t2: "\<forall>e\<in>set e2. step_of e = Coordinates"
    using s2 unfolding check_custodian_pubkey_def by (auto dest: check_pair_step)
  have t3: "\<forall>e\<in>set e3. step_of e = Coordinates"
    using s3 unfolding check_signature_def by (auto dest: check_pair_step)
  have t4: "\<forall>e\<in>set e4. step_of e = MessageHash"
    using s4 by (auto dest: check_message_hash_step)
  have t5: "\<forall>e\<in>set e5. step_of e = AccountIdHash"
    using s5 by (auto dest: check_account_id_hash_step)
  have t6: "\<forall>e\<in>set e6. step_of e = BalanceRaw"
    using check_range_Inr [OF s6 [unfolded check_balance_raw_def]]
    by (auto split: option.splits if_splits)
  have t7: "\<forall>e\<in>set e7. step_of e = CurrencyCodeInt"
    using check_range_Inr [OF s7 [unfolded check_currency_code_int_def]]
    by (auto split: option.splits if_splits)
  have t8: "\<forall>e\<in>set e8. step_of e = CustodianId"
    using check_range_Inr [OF s8 [unfolded check_custodian_id_def]]
    by (auto split: option.splits if_splits)
  have keep: "\<And>k es. \<forall>e\<in>set es. step_of e = k \<Longrightarrow> filter (\<lambda>e. step_of e = k) es = es"
    by (simp add: filter_id_conv)
  have drop: "\<And>k j es. \<forall>e\<in>set es. step_of e = j \<Longrightarrow> j \<noteq> k \<Longrightarrow> filter (\<lambda>e. step_of e = k) es = []"
    by (auto simp: filter_empty_conv)
  have f1: "filter (\<lambda>e. step_of e = RequiredFields) errs = e1"
    unfolding errs filter_append
    by (simp add: keep [OF t1] drop [OF t2] drop [OF t3] drop [OF t4] drop [OF t5]
        drop [OF t6] drop [OF t7] drop [OF t8])
  have f3: "filter (\<lambda>e. step_of e = MessageHash) errs = e4"
    unfolding errs filter_append
    by (simp add: drop [OF t1] drop [OF t2] drop [OF t3] keep [OF t4] drop [OF t5]
        drop [OF t6] drop [OF t7] drop [OF t8])
  have f4: "filter (\<lambda>e. step_of e = AccountIdHash) errs = e5"
    unfolding errs filter_append
    by (simp add: drop [OF t1] drop [OF t2] drop [OF t3] drop [OF t4] keep [OF t5]
        drop [OF t6] drop [OF t7] drop [OF t8])
  have f5: "filter (\<lambda>e. step_of e = BalanceRaw) errs = e6"
    unfolding errs filter_append
    by (simp add: drop [OF t1] drop [OF t2] drop [OF t3] drop [OF t4] drop [OF t5]
        keep [OF t6] drop [OF t7] drop [OF t8])
  have f6: "filter (\<lambda>e. step_of e = CurrencyCodeInt) errs = e7"
    unfolding errs filter_append
    by (simp add: drop [OF t1] drop [OF t2] drop [OF t3] drop [OF t4] drop [OF t5]
        drop [OF t6] keep [OF t7] drop [OF t8])
  have f7: "filter (\<lambda>e. step_of e = CustodianId) errs = e8"
    unfolding errs filter_append
    by (simp add: drop [OF t1] drop [OF t2] drop [OF t3] drop [OF t4] drop [OF t5]
        drop [OF t6] drop [OF t7] keep [OF t8])
  show "check_fields att required_fields = Inr (filter (\<lambda>e. step_of e = RequiredFields) errs)"
    by (simp only: f1 s1)
  show "check_message_hash att = Inr (filter (\<lambda>e. step_of e = MessageHash) errs)"
    by (simp only: f3 s4)
  show "check_account_id_hash att = Inr (filter (\<lambda>e. step_of e = AccountIdHash) errs)"
    by (simp only: f4 s5)
  show "check_balance_raw att = Inr (filter (\<lambda>e. step_of e = BalanceRaw) errs)"
    by (simp only: f5 s6)
  show "check_currency_code_int att = Inr (filter (\<lambda>e. step_of e = CurrencyCodeInt) errs)"
    by (simp only: f6 s7)
  show "check_custodian_id att = Inr (filter (\<lambda>e. step_of e = CustodianId) errs)"
    by (simp only: f7 s8)
qed

subsection \<open>When the error list is empty\<close>

lemma field_of_object: "field_of (JObject kvs) = map_of kvs"
  by (rule ext) simp

lemma presence_type_error_Nil:
  "presence_type_error m (f, t, d) = [] \<longleftrightarrow> (\<exists>v. m f = Some v \<and> isinstance v t)"
  by (auto split: option.splits)

lemma int_field_object: "int_field (JObject kvs) k = Option.bind (map_of kvs k) as_int"
  by (simp add: int_field_def)

lemma int_field_Some_iff:
  "int_field att k \<noteq> None \<longleftrightarrow> (\<exists>v. field_of att k = Some v \<and> isinstance v PyInt)"
  by (cases "field_of att k") (auto simp: int_field_def isinstance_int)

lemma required_fields_Nil:
  "concat (map (presence_type_error (field_of att)) required_fields) = [] \<longleftrightarrow>
     int_field att ''balance_raw'' \<noteq> None
   \<and> int_field att ''currency_code_int'' \<noteq> None
   \<and> int_field att ''custodian_id'' \<noteq> None
   \<and> int_field att ''attestation_id'' \<noteq> None
   \<and> int_field att ''issued_at'' \<noteq> None
   \<and> int_field att ''valid_until'' \<noteq> None
   \<and> (\<exists>v. field_of att ''account_id_hash'' = Some v \<and> isinstance v PyStr)
   \<and> (\<exists>v. field_of att ''custodian_pubkey'' = Some v \<and> isinstance v PyDict)
   \<and> (\<exists>v. field_of att ''signature'' = Some v \<and> isinstance v PyDict)
   \<and> (\<exists>v. field_of att ''message_hash'' = Some v \<and> isinstance v PyList)"
  unfolding required_fields_def int_field_Some_iff
  by (simp only: list.map concat.simps append_is_Nil_conv presence_type_error_Nil simp_thms)

lemma att_accepted_object: "att_accepted att \<Longrightarrow> \<exists>kvs. att = JObject kvs"
  by (cases att) (simp_all add: att_accepted_def int_field_def)

lemma steps_Nil_iff:
  "check_fields (JObject kvs) required_fields = Inr []
   \<and> check_custodian_pubkey (JObject kvs) = Inr []
   \<and> check_signature (JObject kvs) = Inr []
   \<and> check_message_hash (JObject kvs) = Inr []
   \<and> check_account_id_hash (JObject kvs) = Inr []
   \<and> check_balance_raw (JObject kvs) = Inr []
   \<and> check_currency_code_int (JObject kvs) = Inr []
   \<and> check_custodian_id (JObject kvs) = Inr []
   \<longleftrightarrow> att_accepted (JObject kvs)"
  (is "?L \<longleftrightarrow> ?R")
proof
  assume l: ?L
  then have "check_fields (JObject kvs) required_fields = Inr []" by simp
  from check_fields_Inr [OF this]
  have req: "concat (map (presence_type_error (field_of (JObject kvs))) required_fields) = []"
    by simp
  note r = req [unfolded required_fields_Nil]
  from r obtain a where a: "map_of kvs ''account_id_hash'' = Some a" "isinstance a PyStr" by auto
  from r obtain p where p: "map_of kvs ''custodian_pubkey'' = Some p" "isinstance p PyDict" by auto
  from r obtain s where s: "map_of kvs ''signature'' = Some s" "isinstance s PyDict" by auto
  from r obtain h where h: "map_of kvs ''message_hash'' = Some h" by auto
  have 1: "decodable_hex_64 (Some a)"
    using l check_account_id_hash_Nil [OF a] by simp
  have 2: "pair_of_arrays ''x'' ''y'' (Some p)"
    using l check_pair_Nil [OF p] by (simp add: check_custodian_pubkey_def)
  have 3: "pair_of_arrays ''r'' ''s'' (Some s)"
    using l check_pair_Nil [OF s] by (simp add: check_signature_def)
  have 4: "byte_array_32 (Some h)"
    using l check_message_hash_Nil [OF h] by simp
  have 5: "case int_field (JObject kvs) ''balance_raw'' of None \<Rightarrow> False | Some n \<Rightarrow> 0 \<le> n"
    using l r by (auto simp: check_balance_raw_def check_range_object split: option.splits if_splits)
  have 6: "int_within 0 (2 ^ 32 - 1) (int_field (JObject kvs) ''currency_code_int'')"
    using l r by (auto simp: check_currency_code_int_def check_range_object int_within_def
        split: option.splits if_splits)
  have 7: "int_within 0 (2 ^ 32 - 1) (int_field (JObject kvs) ''custodian_id'')"
    using l r by (auto simp: check_custodian_id_def check_range_object int_within_def
        split: option.splits if_splits)
  show ?R
    unfolding att_accepted_def using r 1 2 3 4 5 6 7 a p s h by simp
next
  assume r: ?R
  note acc = r [unfolded att_accepted_def]
  from acc obtain a where a: "map_of kvs ''account_id_hash'' = Some a" "isinstance a PyStr"
    by (auto simp: decodable_hex_64_def isinstance_str split: option.splits json.splits)
  from acc obtain p where p: "map_of kvs ''custodian_pubkey'' = Some p" "isinstance p PyDict"
    by (auto simp: pair_of_arrays_def isinstance_dict split: option.splits json.splits)
  from acc obtain s where s: "map_of kvs ''signature'' = Some s" "isinstance s PyDict"
    by (auto simp: pair_of_arrays_def isinstance_dict split: option.splits json.splits)
  from acc obtain h where h: "map_of kvs ''message_hash'' = Some h" "isinstance h PyList"
    by (auto simp: byte_array_32_def isinstance_list split: option.splits json.splits)
  have "concat (map (presence_type_error (field_of (JObject kvs))) required_fields) = []"
    unfolding required_fields_Nil using acc a p s h by simp
  then have 0: "check_fields (JObject kvs) required_fields = Inr []"
    by (simp add: check_fields_object field_of_object)
  have 1: "check_account_id_hash (JObject kvs) = Inr []"
    using acc check_account_id_hash_Nil [OF a] a by simp
  have 2: "check_custodian_pubkey (JObject kvs) = Inr []"
    using acc check_pair_Nil [OF p] p by (simp add: check_custodian_pubkey_def)
  have 3: "check_signature (JObject kvs) = Inr []"
    using acc check_pair_Nil [OF s] s by (simp add: check_signature_def)
  have 4: "check_message_hash (JObject kvs) = Inr []"
    using acc check_message_hash_Nil [OF h(1)] h by simp
  have 5: "check_balance_raw (JObject kvs) = Inr []"
    using acc by (auto simp: check_balance_raw_def check_range_object split: option.splits)
  have 6: "check_currency_code_int (JObject kvs) = Inr []"
    using acc by (auto simp: check_currency_code_int_def check_range_object int_within_def
        split: option.splits)
  have 7: "check_custodian_id (JObject kvs) = Inr []"
    using acc by (auto simp: check_custodian_id_def check_range_object int_within_def
        split: option.splits)
  show ?L using 0 1 2 3 4 5 6 7 by simp
qed

lemma validate_attestation_Nil_iff: "validate_attestation doc = Inr [] \<longleftrightarrow> code_accepts doc"
proof
  assume v: "validate_attestation doc = Inr []"
  show "code_accepts doc"
  proof (cases "attestation_of doc")
    case None
    then show ?thesis using validate_attestation_not_object [OF None v] by simp
  next
    case (Some att)
    from validate_attestation_steps [OF v Some]
    have st: "check_fields att required_fields = Inr []
      \<and> check_custodian_pubkey att = Inr []
      \<and> check_signature att = Inr []
      \<and> check_message_hash att = Inr []
      \<and> check_account_id_hash att = Inr []
      \<and> check_balance_raw att = Inr []
      \<and> check_currency_code_int att = Inr []
      \<and> check_custodian_id att = Inr []"
      by auto
    then have "check_fields att required_fields = Inr []" by simp
    from check_fields_Inr [OF this]
    have "concat (map (presence_type_error (field_of att)) required_fields) = []"
      by simp
    then have "int_field att ''balance_raw'' \<noteq> None"
      unfolding required_fields_Nil by simp
    then obtain kvs where "att = JObject kvs"
      by (cases att) (simp_all add: int_field_def)
    with st have "att_accepted att" using steps_Nil_iff by blast
    then show ?thesis by (simp add: code_accepts_def Some)
  qed
next
  assume c: "code_accepts doc"
  then obtain att where att: "attestation_of doc = Some att" "att_accepted att"
    by (auto simp: code_accepts_def split: option.splits)
  obtain kvs where kvs: "att = JObject kvs" using att_accepted_object [OF att(2)] ..
  obtain outer where outer: "doc = JObject outer" "map_of outer ''attestation'' = Some att"
    using att(1) unfolding attestation_of_def by (auto dest: field_of_Some)
  have "check_fields (JObject kvs) required_fields = Inr []
   \<and> check_custodian_pubkey (JObject kvs) = Inr []
   \<and> check_signature (JObject kvs) = Inr []
   \<and> check_message_hash (JObject kvs) = Inr []
   \<and> check_account_id_hash (JObject kvs) = Inr []
   \<and> check_balance_raw (JObject kvs) = Inr []
   \<and> check_currency_code_int (JObject kvs) = Inr []
   \<and> check_custodian_id (JObject kvs) = Inr []"
    using att(2) kvs steps_Nil_iff by blast
  then show "validate_attestation doc = Inr []"
    unfolding outer(1) validate_attestation_object by (simp add: outer(2) kvs)
qed

subsection \<open>Errors by the field they concern\<close>

lemma error_field_step: "error_field e = Some f \<Longrightarrow> step_of e = RequiredFields"
  by (cases e) simp_all

lemma is_element_error_step: "is_element_error e \<Longrightarrow> step_of e = MessageHash"
  by (cases e) simp_all

lemma filter_refine:
  "(\<And>e. P e \<Longrightarrow> Q e) \<Longrightarrow> filter P xs = filter P (filter Q xs)"
  by (induction xs) auto

lemma validate_attestation_field_errors:
  assumes "validate_attestation doc = Inr errs" and "attestation_of doc = Some att"
    and "(f, t, d) \<in> set required_fields"
  shows "filter (\<lambda>e. error_field e = Some f) errs = presence_type_error (field_of att) (f, t, d)"
proof -
  define e1 where "e1 = filter (\<lambda>e. step_of e = RequiredFields) errs"
  have e1: "check_fields att required_fields = Inr e1"
    "filter (\<lambda>e. step_of e = RequiredFields) errs = e1"
    using validate_attestation_step_filter(1) [OF assms(1,2)] by (simp_all only: e1_def)
  have "filter (\<lambda>e. error_field e = Some f) errs
      = filter (\<lambda>e. error_field e = Some f) (filter (\<lambda>e. step_of e = RequiredFields) errs)"
    by (rule filter_refine) (rule error_field_step)
  also have "\<dots> = filter (\<lambda>e. error_field e = Some f) e1"
    by (simp only: e1(2))
  also have "\<dots> = presence_type_error (field_of att) (f, t, d)"
    unfolding check_fields_Inr [OF e1(1)]
    by (rule filter_presence_type_error [OF distinct_required_fields assms(3)])
  finally show ?thesis .
qed

lemma validate_attestation_element_errors:
  assumes "validate_attestation doc = Inr errs" and "attestation_of doc = Some att"
    and "field_of att ''message_hash'' = Some (JArray xs)" and "length xs = 32"
  shows "filter is_element_error errs = scan_bytes 0 xs"
proof -
  define e3 where "e3 = filter (\<lambda>e. step_of e = MessageHash) errs"
  have e3: "check_message_hash att = Inr e3"
    "filter (\<lambda>e. step_of e = MessageHash) errs = e3"
    using validate_attestation_step_filter(2) [OF assms(1,2)] by (simp_all only: e3_def)
  have "filter is_element_error errs
      = filter is_element_error (filter (\<lambda>e. step_of e = MessageHash) errs)"
    by (rule filter_refine) (rule is_element_error_step)
  also have "\<dots> = filter is_element_error e3"
    by (simp only: e3(2))
  also have "\<dots> = filter is_element_error (scan_bytes 0 xs)"
    using check_message_hash_Inr [OF e3(1) assms(3,4)] by simp
  also have "\<dots> = scan_bytes 0 xs"
    by (auto simp: filter_id_conv dest: scan_bytes_element)
  finally show ?thesis .
qed

lemma validate_attestation_account_id_hash_errors:
  assumes "validate_attestation doc = Inr errs" and "attestation_of doc = Some att"
    and "field_of att ''account_id_hash'' = Some (JString s)"
  shows "filter about_account_id_hash errs =
     (if length (removeprefix ''0X'' (removeprefix ''0x'' s)) \<noteq> 64
      then [HexLength (length (removeprefix ''0X'' (removeprefix ''0x'' s)))] else [])
     @ (if fromhex_ok (removeprefix ''0X'' (removeprefix ''0x'' s)) then [] else [NotHex s])"
proof -
  define e4 where "e4 = filter (\<lambda>e. step_of e = AccountIdHash) errs"
  have e4: "check_account_id_hash att = Inr e4"
    "filter (\<lambda>e. step_of e = AccountIdHash) errs = e4"
    using validate_attestation_step_filter(3) [OF assms(1,2)] by (simp_all only: e4_def)
  have "(''account_id_hash'', PyStr, ''32-byte hex or array'') \<in> set required_fields"
    by (simp add: required_fields_def)
  from validate_attestation_field_errors [OF assms(1,2) this]
  have "filter (\<lambda>e. error_field e = Some ''account_id_hash'') errs = []"
    by (simp add: assms(3) isinstance_def)
  then have "\<forall>e\<in>set errs. error_field e \<noteq> Some ''account_id_hash''"
    by (simp add: filter_empty_conv)
  then have "filter about_account_id_hash errs = filter (\<lambda>e. step_of e = AccountIdHash) errs"
    by (intro filter_cong) (auto simp: about_account_id_hash_def)
  then show ?thesis
    using e4(2) check_account_id_hash_string [OF e4(1) assms(3)] by simp
qed

subsection \<open>Hexadecimal strings\<close>

lemma hexdigit_not_space: "is_hexdigit c \<Longrightarrow> \<not> is_space c"
  by (auto simp: is_hexdigit_def is_space_def)

lemma fromhex_ok_hexdigits: "list_all is_hexdigit h \<Longrightarrow> even (length h) \<Longrightarrow> fromhex_ok h"
proof (induction h rule: induct_list012)
  case 1
  then show ?case by simp
next
  case (2 x)
  then show ?case by simp
next
  case (3 x y zs)
  then show ?case by (simp add: hexdigit_not_space)
qed

lemma removeprefix_hexdigits:
  assumes "list_all is_hexdigit h"
  shows "removeprefix ''0x'' h = h" and "removeprefix ''0X'' h = h"
proof -
  have "\<not> prefix ''0x'' h"
  proof
    assume "prefix ''0x'' h"
    then obtain t where "h = ''0x'' @ t" by (auto simp: prefix_def)
    with assms have "is_hexdigit CHR ''x''" by simp
    then show False by (simp add: is_hexdigit_def)
  qed
  then show "removeprefix ''0x'' h = h" by (simp add: removeprefix_def)
  have "\<not> prefix ''0X'' h"
  proof
    assume "prefix ''0X'' h"
    then obtain t where "h = ''0X'' @ t" by (auto simp: prefix_def)
    with assms have "is_hexdigit CHR ''X''" by simp
    then show False by (simp add: is_hexdigit_def)
  qed
  then show "removeprefix ''0X'' h = h" by (simp add: removeprefix_def)
qed

lemma removeprefix_prefixed:
  "removeprefix ''0x'' (''0x'' @ h) = h"
  "removeprefix ''0X'' (''0X'' @ h) = h"
  "removeprefix ''0x'' (''0X'' @ h) = ''0X'' @ h"
  by (simp_all add: removeprefix_def)

lemma strip_hexdigits:
  assumes "list_all is_hexdigit h" and "s = h \<or> s = ''0x'' @ h \<or> s = ''0X'' @ h"
  shows "removeprefix ''0X'' (removeprefix ''0x'' s) = h"
  using assms(2) removeprefix_hexdigits [OF assms(1)] removeprefix_prefixed [of h]
  by (elim disjE) simp_all

section \<open>The claims\<close>

text \<open>
  C1 (amended). For every document whose \<open>account_id_hash\<close> is not an array,
  \<open>validate_attestation\<close> returns the empty error list exactly when the document is an
  object whose \<open>attestation\<close> value is an object in which: the six integer fields are
  present and are Python ints (a JSON integer or boolean); \<open>account_id_hash\<close> is a
  string that, after removing a leading \<open>0x\<close> and then a leading \<open>0X\<close>, has exactly
  64 characters and is accepted by \<open>bytes.fromhex\<close>; \<open>custodian_pubkey\<close> and
  \<open>signature\<close> are objects whose \<open>x\<close>, \<open>y\<close> and \<open>r\<close>, \<open>s\<close> are arrays of exactly 32
  elements (the elements are not inspected); \<open>message_hash\<close> is an array of 32 elements
  each a Python int in [0,255]; \<open>balance_raw\<close> is non-negative; and
  \<open>currency_code_int\<close> and \<open>custodian_id\<close> are in [0, 2^32-1].
\<close>

theorem empty_list_iff_accepted:
  "\<not> account_id_hash_is_array doc \<Longrightarrow>
   validate_attestation doc = Inr [] \<longleftrightarrow> code_accepts doc"
  by (rule validate_attestation_Nil_iff)

theorem empty_list_iff_accepted_witness:
  "\<not> account_id_hash_is_array sample_doc
   \<and> code_accepts sample_doc
   \<and> validate_attestation sample_doc = Inr []
   \<and> \<not> account_id_hash_is_array (sample_with ''balance_raw'' (JInt (- 5)))
   \<and> \<not> code_accepts (sample_with ''balance_raw'' (JInt (- 5)))
   \<and> validate_attestation (sample_with ''balance_raw'' (JInt (- 5))) \<noteq> Inr []"
proof -
  have h1: "\<not> account_id_hash_is_array sample_doc" by code_simp
  have c1: "code_accepts sample_doc" by code_simp
  have h2: "\<not> account_id_hash_is_array (sample_with ''balance_raw'' (JInt (- 5)))" by code_simp
  have c2: "\<not> code_accepts (sample_with ''balance_raw'' (JInt (- 5)))" by code_simp
  show ?thesis
    using empty_list_iff_accepted [OF h1] empty_list_iff_accepted [OF h2] h1 c1 h2 c2 by simp
qed

text \<open>
  C1 as stated fails in both directions. Out-of-range elements of
  \<open>custodian_pubkey.x\<close>, a boolean \<open>balance_raw\<close> and a 64-character
  \<open>account_id_hash\<close> holding whitespace break section 3 and yield no error; a 32-byte
  array \<open>account_id_hash\<close> satisfies section 3 and is reported by the required-field pass.
\<close>

theorem section3_not_what_validate_decides:
  "validate_attestation pubkey_x_out_of_range = Inr []
   \<and> \<not> section3_invariants pubkey_x_out_of_range
   \<and> validate_attestation (sample_with ''balance_raw'' (JBool True)) = Inr []
   \<and> \<not> section3_invariants (sample_with ''balance_raw'' (JBool True))
   \<and> validate_attestation
        (sample_with ''account_id_hash'' (JString (CHR '' '' # replicate 62 CHR ''b'' @ '' ''))) = Inr []
   \<and> \<not> section3_invariants
        (sample_with ''account_id_hash'' (JString (CHR '' '' # replicate 62 CHR ''b'' @ '' '')))
   \<and> section3_invariants (sample_with ''account_id_hash'' bytes32)
   \<and> validate_attestation (sample_with ''account_id_hash'' bytes32)
       = Inr [WrongType ''account_id_hash'' PyStr PyList]"
proof -
  have 1: "validate_attestation pubkey_x_out_of_range = Inr []" by code_simp
  have 2: "\<not> section3_invariants pubkey_x_out_of_range" by code_simp
  have 3: "validate_attestation (sample_with ''balance_raw'' (JBool True)) = Inr []" by code_simp
  have 4: "\<not> section3_invariants (sample_with ''balance_raw'' (JBool True))" by code_simp
  have 5: "validate_attestation
        (sample_with ''account_id_hash'' (JString (CHR '' '' # replicate 62 CHR ''b'' @ '' ''))) = Inr []"
    by code_simp
  have 6: "\<not> section3_invariants
        (sample_with ''account_id_hash'' (JString (CHR '' '' # replicate 62 CHR ''b'' @ '' '')))"
    by code_simp
  have 7: "section3_invariants (sample_with ''account_id_hash'' bytes32)" by code_simp
  have 8: "validate_attestation (sample_with ''account_id_hash'' bytes32)
       = Inr [WrongType ''account_id_hash'' PyStr PyList]" by code_simp
  show ?thesis using 1 2 3 4 5 6 7 8 by blast
qed

text \<open>
  C2. The validator raises \<open>TypeError\<close> on a well-formed JSON object: when
  \<open>custodian_pubkey.x\<close> is the number 5, or \<open>signature.r\<close> is \<open>null\<close>, the error
  message calls \<open>len\<close> on the value. The check of \<open>message_hash\<close> guards the same call
  and reports a number as validation errors.
\<close>

theorem coordinate_not_sized_raises:
  "validate_attestation pubkey_x_number = Inl TypeError
   \<and> validate_attestation signature_r_null = Inl TypeError
   \<and> validate_attestation (sample_with ''message_hash'' (JInt 5))
       = Inr [WrongType ''message_hash'' PyList PyInt, MessageHashNot32 None]"
proof -
  have 1: "validate_attestation pubkey_x_number = Inl TypeError" by code_simp
  have 2: "validate_attestation signature_r_null = Inl TypeError" by code_simp
  have 3: "validate_attestation (sample_with ''message_hash'' (JInt 5))
       = Inr [WrongType ''message_hash'' PyList PyInt, MessageHashNot32 None]" by code_simp
  show ?thesis using 1 2 3 by blast
qed

text \<open>
  C3 (amended). If the document is an object without the \<open>attestation\<close> key, or an array
  that does not hold the string \<open>attestation\<close>, or a string that does not contain it,
  the validator returns exactly the one error for the missing top-level field, whatever
  else the document holds. On \<open>null\<close>, a boolean or a number it raises \<open>TypeError\<close>.
\<close>

theorem missing_attestation_single_error:
  "(map_of kvs ''attestation'' = None \<longrightarrow>
      validate_attestation (JObject kvs) = Inr [MissingTopLevel])
   \<and> (JString ''attestation'' \<notin> set xs \<longrightarrow>
      validate_attestation (JArray xs) = Inr [MissingTopLevel])
   \<and> (\<not> sublist ''attestation'' s \<longrightarrow>
      validate_attestation (JString s) = Inr [MissingTopLevel])
   \<and> validate_attestation JNull = Inl TypeError
   \<and> validate_attestation (JBool b) = Inl TypeError
   \<and> validate_attestation (JInt n) = Inl TypeError
   \<and> validate_attestation (JFloat x) = Inl TypeError"
  by (simp add: validate_attestation_def)

theorem missing_attestation_single_error_witness:
  "validate_attestation
     (JObject [(''balance_raw'', JInt (- 5)), (''message_hash'', JNull)]) = Inr [MissingTopLevel]
   \<and> validate_attestation (JArray [JInt 1, JString ''x'']) = Inr [MissingTopLevel]
   \<and> validate_attestation (JString ''attest'') = Inr [MissingTopLevel]"
proof -
  have 1: "map_of [(''balance_raw'', JInt (- 5)), (''message_hash'', JNull)] ''attestation'' = None"
    by simp
  have 2: "JString ''attestation'' \<notin> set [JInt 1, JString ''x'']" by simp
  have 3: "\<not> sublist ''attestation'' ''attest''" by code_simp
  show ?thesis
    using missing_attestation_single_error
      [of "[(''balance_raw'', JInt (- 5)), (''message_hash'', JNull)]"
          "[JInt 1, JString ''x'']" "''attest''"] 1 2 3
    by blast
qed

text \<open>
  C3 as stated fails for documents that are not objects: \<open>null\<close> and numbers are not
  containers, and an array holding the string \<open>attestation\<close> passes the membership
  test and is then subscripted with a string.
\<close>

theorem non_object_document_raises:
  "validate_attestation JNull = Inl TypeError
   \<and> validate_attestation (JInt 5) = Inl TypeError
   \<and> validate_attestation (JArray [JString ''attestation'']) = Inl TypeError"
  by (simp add: validate_attestation_def)

subsection \<open>Replacing one field of the attestation\<close>

lemma field_of_upd:
  "field_of att' = (field_of att)(k \<mapsto> v) \<Longrightarrow>
   field_of att' j = (if j = k then Some v else field_of att j)"
  by simp

lemma int_field_upd:
  "field_of att' = (field_of att)(k \<mapsto> v) \<Longrightarrow>
   int_field att' j = (if j = k then as_int v else int_field att j)"
  by (simp add: int_field_def)

lemma att_accepted_coordinates:
  assumes "att_accepted att"
    and "(parent = ''custodian_pubkey'' \<and> pair_of_arrays ''x'' ''y'' (Some v))
       \<or> (parent = ''signature'' \<and> pair_of_arrays ''r'' ''s'' (Some v))"
    and "field_of att' = (field_of att)(parent \<mapsto> v)"
  shows "att_accepted att'"
  using assms(2)
proof (elim disjE conjE)
  assume "parent = ''custodian_pubkey''" and "pair_of_arrays ''x'' ''y'' (Some v)"
  then show ?thesis
    using assms(1)
    unfolding att_accepted_def int_field_upd [OF assms(3)] field_of_upd [OF assms(3)]
    by simp
next
  assume "parent = ''signature''" and "pair_of_arrays ''r'' ''s'' (Some v)"
  then show ?thesis
    using assms(1)
    unfolding att_accepted_def int_field_upd [OF assms(3)] field_of_upd [OF assms(3)]
    by simp
qed

lemma pair_of_arrays_upd:
  assumes "pair_of_arrays k1 k2 (Some (JObject obj))"
    and "map_of obj' = (map_of obj)(key \<mapsto> JArray elems)" and "length elems = 32"
  shows "pair_of_arrays k1 k2 (Some (JObject obj'))"
  using assms by (simp add: pair_of_arrays_def array_of_32_def)

lemma att_accepted_bool:
  assumes "att_accepted att"
    and "f \<in> {''balance_raw'', ''currency_code_int'', ''custodian_id'', ''attestation_id'',
               ''issued_at'', ''valid_until''}"
    and "field_of att' = (field_of att)(f \<mapsto> JBool b)"
  shows "att_accepted att'"
proof -
  note upd = int_field_upd [OF assms(3)] field_of_upd [OF assms(3)]
  from assms(2) have "f = ''balance_raw'' \<or> f = ''currency_code_int'' \<or> f = ''custodian_id''
      \<or> f = ''attestation_id'' \<or> f = ''issued_at'' \<or> f = ''valid_until''"
    by (simp only: insert_iff empty_iff simp_thms)
  then show ?thesis
  proof (elim disjE)
    assume "f = ''balance_raw''"
    then show ?thesis using assms(1) unfolding att_accepted_def upd
      by (simp add: int_within_def)
  next
    assume "f = ''currency_code_int''"
    then show ?thesis using assms(1) unfolding att_accepted_def upd
      by (simp add: int_within_def)
  next
    assume "f = ''custodian_id''"
    then show ?thesis using assms(1) unfolding att_accepted_def upd
      by (simp add: int_within_def)
  next
    assume "f = ''attestation_id''"
    then show ?thesis using assms(1) unfolding att_accepted_def upd
      by (simp add: int_within_def)
  next
    assume "f = ''issued_at''"
    then show ?thesis using assms(1) unfolding att_accepted_def upd
      by (simp add: int_within_def)
  next
    assume "f = ''valid_until''"
    then show ?thesis using assms(1) unfolding att_accepted_def upd
      by (simp add: int_within_def)
  qed
qed

lemma att_accepted_message_hash:
  assumes "att_accepted att" and "byte_array_32 (Some v)"
    and "field_of att' = (field_of att)(''message_hash'' \<mapsto> v)"
  shows "att_accepted att'"
  using assms(1,2)
  unfolding att_accepted_def int_field_upd [OF assms(3)] field_of_upd [OF assms(3)]
  by simp

text \<open>
  C4 (amended). For \<open>custodian_pubkey.x\<close>, \<open>custodian_pubkey.y\<close>, \<open>signature.r\<close> and
  \<open>signature.s\<close> the validator checks only that the value is an array of exactly 32
  elements: a document that differs from an accepted one only in the elements of one of
  these arrays, whatever they are, is accepted as well. The element-range check applies
  to \<open>message_hash\<close> alone.
\<close>

theorem coordinates_checked_for_length_only:
  assumes "validate_attestation doc = Inr []"
    and "attestation_of doc = Some att" and "attestation_of doc' = Some att'"
    and "(parent, key) \<in> {(''custodian_pubkey'', ''x''), (''custodian_pubkey'', ''y''),
                          (''signature'', ''r''), (''signature'', ''s'')}"
    and "field_of att parent = Some (JObject obj)"
    and "field_of att' = (field_of att)(parent \<mapsto> JObject obj')"
    and "map_of obj' = (map_of obj)(key \<mapsto> JArray elems)"
    and "length elems = 32"
  shows "validate_attestation doc' = Inr []"
proof -
  have acc: "att_accepted att"
    using assms(1,2) by (simp add: validate_attestation_Nil_iff code_accepts_def)
  have pk: "pair_of_arrays ''x'' ''y'' (field_of att ''custodian_pubkey'')"
    and sg: "pair_of_arrays ''r'' ''s'' (field_of att ''signature'')"
    using acc by (simp_all add: att_accepted_def)
  have "(parent = ''custodian_pubkey'' \<and> pair_of_arrays ''x'' ''y'' (Some (JObject obj')))
       \<or> (parent = ''signature'' \<and> pair_of_arrays ''r'' ''s'' (Some (JObject obj')))"
    using assms(4) pk sg assms(5) pair_of_arrays_upd [OF _ assms(7,8)] by auto
  from att_accepted_coordinates [OF acc this assms(6)]
  have "att_accepted att'" .
  then show ?thesis
    using assms(3) by (simp add: validate_attestation_Nil_iff code_accepts_def)
qed

theorem coordinates_checked_for_length_only_witness:
  "validate_attestation sample_doc = Inr []
   \<and> length ((replicate 32 (JInt 7))[5 := JInt 256]) = 32
   \<and> validate_attestation pubkey_x_out_of_range = Inr []"
proof -
  let ?elems = "(replicate 32 (JInt 7))[5 := JInt 256]"
  let ?obj = "[(''x'', bytes32), (''y'', bytes32)]"
  let ?obj' = "[(''x'', JArray ?elems), (''y'', bytes32)]"
  let ?att' = "JObject (AList.update ''custodian_pubkey'' (JObject ?obj') sample_att)"
  have 1: "validate_attestation sample_doc = Inr []" by code_simp
  have 2: "attestation_of sample_doc = Some (JObject sample_att)"
    by (simp add: sample_doc_def document_def attestation_of_def)
  have 3: "attestation_of pubkey_x_out_of_range = Some ?att'"
    by (simp add: pubkey_x_out_of_range_def sample_with_def document_def attestation_of_def)
  have 4: "(''custodian_pubkey'', ''x'') \<in> {(''custodian_pubkey'', ''x''), (''custodian_pubkey'', ''y''),
                          (''signature'', ''r''), (''signature'', ''s'')}" by simp
  have 5: "field_of (JObject sample_att) ''custodian_pubkey'' = Some (JObject ?obj)"
    by (simp add: sample_att_def)
  have 6: "field_of ?att' = (field_of (JObject sample_att))(''custodian_pubkey'' \<mapsto> JObject ?obj')"
    by (simp add: field_of_object update_conv')
  have 7: "map_of ?obj' = (map_of ?obj)(''x'' \<mapsto> JArray ?elems)"
    by simp
  have 8: "length ?elems = 32" by simp
  show ?thesis
    using coordinates_checked_for_length_only [OF 1 2 3 4 5 6 7 8] 1 8 by simp
qed

text \<open>
  C4 as stated fails: the sample document is accepted, and it is still accepted with
  element 5 of \<open>custodian_pubkey.x\<close> set to 256, or with an element of \<open>signature.s\<close>
  that is a string.
\<close>

theorem coordinate_elements_not_checked:
  "validate_attestation sample_doc = Inr []
   \<and> validate_attestation pubkey_x_out_of_range = Inr []
   \<and> validate_attestation
        (sample_with ''signature''
          (JObject [(''r'', bytes32), (''s'', JArray ((replicate 32 (JInt 7))[0 := JString ''a'']))]))
       = Inr []"
proof -
  have 1: "validate_attestation sample_doc = Inr []" by code_simp
  have 2: "validate_attestation pubkey_x_out_of_range = Inr []" by code_simp
  have 3: "validate_attestation
        (sample_with ''signature''
          (JObject [(''r'', bytes32), (''s'', JArray ((replicate 32 (JInt 7))[0 := JString ''a'']))]))
       = Inr []" by code_simp
  show ?thesis using 1 2 3 by blast
qed

subsection \<open>The sample documents\<close>

lemma attestation_of_document: "attestation_of (document att) = Some (JObject att)"
  by (simp add: document_def attestation_of_def)

lemma attestation_of_sample_doc: "attestation_of sample_doc = Some (JObject sample_att)"
  by (simp add: sample_doc_def attestation_of_document)

lemma attestation_of_sample_with:
  "attestation_of (sample_with k v) = Some (JObject (AList.update k v sample_att))"
  by (simp add: sample_with_def attestation_of_document)

lemma field_of_update:
  "field_of (JObject (AList.update k v kvs)) = (field_of (JObject kvs))(k \<mapsto> v)"
  by (simp add: field_of_object update_conv')

lemma field_of_update_same: "field_of (JObject (AList.update k v kvs)) k = Some v"
  by (simp add: update_conv')

text \<open>
  C10. Booleans pass wherever the validator asks for an integer. If a document is
  accepted, it is still accepted after one of \<open>balance_raw\<close>, \<open>currency_code_int\<close>,
  \<open>custodian_id\<close>, \<open>attestation_id\<close>, \<open>issued_at\<close>, \<open>valid_until\<close> is replaced by
  \<open>true\<close> or \<open>false\<close>, or after an element of \<open>message_hash\<close> is: the integer test is
  \<open>isinstance(v, int)\<close>, for which \<open>true\<close> counts as 1 and \<open>false\<close> as 0.
\<close>

theorem booleans_accepted_as_integers:
  assumes "validate_attestation doc = Inr []"
    and "attestation_of doc = Some att" and "attestation_of doc' = Some att'"
  shows "(f \<in> {''balance_raw'', ''currency_code_int'', ''custodian_id'', ''attestation_id'',
               ''issued_at'', ''valid_until''}
          \<and> field_of att' = (field_of att)(f \<mapsto> JBool b)
          \<longrightarrow> validate_attestation doc' = Inr []
              \<and> int_field att' f = Some (if b then 1 else 0))
       \<and> (field_of att ''message_hash'' = Some (JArray xs) \<and> i < length xs
          \<and> field_of att' = (field_of att)(''message_hash'' \<mapsto> JArray (xs[i := JBool b]))
          \<longrightarrow> validate_attestation doc' = Inr [])"
proof -
  have acc: "att_accepted att"
    using assms(1,2) by (simp add: validate_attestation_Nil_iff code_accepts_def)
  have fin: "att_accepted att' \<Longrightarrow> validate_attestation doc' = Inr []"
    using assms(3) by (simp add: validate_attestation_Nil_iff code_accepts_def)
  have byte: "is_byte (JBool b)" by (simp add: is_byte_def)
  have 1: "att_accepted att'"
    if "f \<in> {''balance_raw'', ''currency_code_int'', ''custodian_id'', ''attestation_id'',
               ''issued_at'', ''valid_until''}"
      and "field_of att' = (field_of att)(f \<mapsto> JBool b)"
    using att_accepted_bool [OF acc that] .
  have 2: "att_accepted att'"
    if "field_of att ''message_hash'' = Some (JArray xs)" and "i < length xs"
      and "field_of att' = (field_of att)(''message_hash'' \<mapsto> JArray (xs[i := JBool b]))"
  proof -
    have "byte_array_32 (Some (JArray xs))"
      using acc that(1) by (simp add: att_accepted_def)
    then have "list_all is_byte xs" and len: "length xs = 32"
      by (simp_all add: byte_array_32_def)
    then have "list_all is_byte (xs[i := JBool b])"
      using byte by (auto simp: list_all_iff dest: set_update_subset_insert [THEN subsetD])
    with len have "byte_array_32 (Some (JArray (xs[i := JBool b])))"
      by (simp add: byte_array_32_def)
    from att_accepted_message_hash [OF acc this that(3)] show ?thesis .
  qed
  have 3: "int_field att' f = Some (if b then 1 else 0)"
    if "field_of att' = (field_of att)(f \<mapsto> JBool b)"
    using that by (simp add: int_field_def)
  show ?thesis
  proof (intro conjI impI)
    assume a: "f \<in> {''balance_raw'', ''currency_code_int'', ''custodian_id'', ''attestation_id'',
               ''issued_at'', ''valid_until''}
          \<and> field_of att' = (field_of att)(f \<mapsto> JBool b)"
    then show "validate_attestation doc' = Inr []" by (intro fin 1) simp_all
    from a show "int_field att' f = Some (if b then 1 else 0)" by (intro 3) simp
  next
    assume a: "field_of att ''message_hash'' = Some (JArray xs) \<and> i < length xs
          \<and> field_of att' = (field_of att)(''message_hash'' \<mapsto> JArray (xs[i := JBool b]))"
    then show "validate_attestation doc' = Inr []" by (intro fin 2) simp_all
  qed
qed

theorem booleans_accepted_as_integers_witness:
  "validate_attestation sample_doc = Inr []
   \<and> validate_attestation (sample_with ''currency_code_int'' (JBool True)) = Inr []
   \<and> int_field (JObject (AList.update ''currency_code_int'' (JBool True) sample_att))
        ''currency_code_int'' = Some 1
   \<and> validate_attestation
        (sample_with ''message_hash'' (JArray ((replicate 32 (JInt 7))[3 := JBool False]))) = Inr []"
proof -
  have 1: "validate_attestation sample_doc = Inr []" by code_simp
  note 2 = attestation_of_sample_doc
  have f: "''currency_code_int'' \<in> {''balance_raw'', ''currency_code_int'', ''custodian_id'',
      ''attestation_id'', ''issued_at'', ''valid_until''}" by simp
  have m: "field_of (JObject sample_att) ''message_hash'' = Some (JArray (replicate 32 (JInt 7)))"
    by (simp add: sample_att_def bytes32_def)
  have i: "3 < length (replicate 32 (JInt 7))" by simp
  have pa: "''currency_code_int'' \<in> {''balance_raw'', ''currency_code_int'', ''custodian_id'',
      ''attestation_id'', ''issued_at'', ''valid_until''}
      \<and> field_of (JObject (AList.update ''currency_code_int'' (JBool True) sample_att))
          = (field_of (JObject sample_att))(''currency_code_int'' \<mapsto> JBool True)"
    by (intro conjI f field_of_update)
  have pb: "field_of (JObject sample_att) ''message_hash'' = Some (JArray (replicate 32 (JInt 7)))
      \<and> 3 < length (replicate 32 (JInt 7))
      \<and> field_of (JObject (AList.update ''message_hash''
              (JArray ((replicate 32 (JInt 7))[3 := JBool False])) sample_att))
          = (field_of (JObject sample_att))
              (''message_hash'' \<mapsto> JArray ((replicate 32 (JInt 7))[3 := JBool False]))"
    by (intro conjI m i field_of_update)
  note a = booleans_accepted_as_integers
    [OF 1 2 attestation_of_sample_with, THEN conjunct1, THEN mp, OF pa]
  note b = booleans_accepted_as_integers
    [OF 1 2 attestation_of_sample_with, THEN conjunct2, THEN mp, OF pb]
  show ?thesis using 1 a b by simp
qed

text \<open>
  C5 (amended). When \<open>account_id_hash\<close> is a string, the validator removes a leading
  \<open>0x\<close> if there is one and then, from the result, a leading \<open>0X\<close> if there is one
  (so \<open>0x0X...\<close> loses both), and reports no error for the field exactly when the
  remainder has 64 characters and \<open>bytes.fromhex\<close> accepts it. In particular a string
  of 64 hexadecimal digits is accepted bare, prefixed with \<open>0x\<close>, and prefixed with
  \<open>0X\<close>.
\<close>

theorem account_id_hash_string_accepted_iff:
  assumes "validate_attestation doc = Inr errs" and "attestation_of doc = Some att"
    and "field_of att ''account_id_hash'' = Some (JString s)"
  shows "(filter about_account_id_hash errs = [] \<longleftrightarrow>
            length (removeprefix ''0X'' (removeprefix ''0x'' s)) = 64
          \<and> fromhex_ok (removeprefix ''0X'' (removeprefix ''0x'' s)))
       \<and> (length h = 64 \<and> list_all is_hexdigit h
          \<and> (s = h \<or> s = ''0x'' @ h \<or> s = ''0X'' @ h \<or> s = ''0x0X'' @ h)
          \<longrightarrow> filter about_account_id_hash errs = [])"
proof -
  note e = validate_attestation_account_id_hash_errors [OF assms]
  have 1: "filter about_account_id_hash errs = [] \<longleftrightarrow>
            length (removeprefix ''0X'' (removeprefix ''0x'' s)) = 64
          \<and> fromhex_ok (removeprefix ''0X'' (removeprefix ''0x'' s))"
    unfolding e by simp
  have 2: "filter about_account_id_hash errs = []"
    if h: "length h = 64" "list_all is_hexdigit h"
      and s: "s = h \<or> s = ''0x'' @ h \<or> s = ''0X'' @ h \<or> s = ''0x0X'' @ h"
  proof -
    have "removeprefix ''0X'' (removeprefix ''0x'' s) = h"
      using s
    proof (elim disjE)
      assume "s = ''0x0X'' @ h"
      then show ?thesis by (simp add: removeprefix_def)
    qed (simp_all add: strip_hexdigits [OF h(2)])
    moreover have "fromhex_ok h"
      using h by (intro fromhex_ok_hexdigits) simp_all
    ultimately show ?thesis using h(1) by (simp add: 1)
  qed
  show ?thesis using 1 2 by (intro conjI impI) simp_all
qed

theorem account_id_hash_string_accepted_iff_witness:
  "validate_attestation (sample_with ''account_id_hash'' (JString (''0X'' @ hex64))) = Inr []
   \<and> length hex64 = 64 \<and> list_all is_hexdigit hex64
   \<and> filter about_account_id_hash [] = []
   \<and> length (removeprefix ''0X'' (removeprefix ''0x'' (''0X'' @ hex64))) = 64
   \<and> fromhex_ok (removeprefix ''0X'' (removeprefix ''0x'' (''0X'' @ hex64)))"
proof -
  have 1: "validate_attestation (sample_with ''account_id_hash'' (JString (''0X'' @ hex64))) = Inr []"
    by code_simp
  have 2: "length hex64 = 64" by (simp add: hex64_def)
  have 3: "list_all is_hexdigit hex64" by code_simp
  have p: "length hex64 = 64 \<and> list_all is_hexdigit hex64
      \<and> (''0X'' @ hex64 = hex64 \<or> ''0X'' @ hex64 = ''0x'' @ hex64
         \<or> ''0X'' @ hex64 = ''0X'' @ hex64 \<or> ''0X'' @ hex64 = ''0x0X'' @ hex64)"
    using 2 3 by simp
  note t = account_id_hash_string_accepted_iff
    [OF 1 attestation_of_sample_with field_of_update_same]
  note a = t [THEN conjunct2, THEN mp, OF p]
  note b = t [THEN conjunct1, THEN iffD1, OF a]
  show ?thesis using 1 2 3 a b by simp
qed

text \<open>
  C5 as stated fails on the limit of one prefix: with \<open>0x0X\<close> before 64 hexadecimal
  digits, stripping one prefix leaves 66 characters, yet the validator removes both and
  reports nothing.
\<close>

theorem both_prefixes_removed:
  "validate_attestation (sample_with ''account_id_hash'' (JString (''0x0X'' @ hex64))) = Inr []
   \<and> length (strip_one_prefix (''0x0X'' @ hex64)) = 66
   \<and> removeprefix ''0X'' (removeprefix ''0x'' (''0x0X'' @ hex64)) = hex64"
proof -
  have 1: "validate_attestation (sample_with ''account_id_hash'' (JString (''0x0X'' @ hex64)))
      = Inr []" by code_simp
  have 2: "length (strip_one_prefix (''0x0X'' @ hex64)) = 66"
    by (simp add: strip_one_prefix_def hex64_def)
  have 3: "removeprefix ''0X'' (removeprefix ''0x'' (''0x0X'' @ hex64)) = hex64"
    by (simp add: removeprefix_def)
  show ?thesis using 1 2 3 by simp
qed

text \<open>
  C6. When \<open>account_id_hash\<close> is a string, the errors reported for the field are the
  length error, if the remainder after the prefixes is not 64 characters long, followed
  by the decode error, if \<open>bytes.fromhex\<close> rejects the remainder: each is decided on
  its own. A short string that is not hexadecimal gets both, a 64-character one that is
  not hexadecimal gets the decode error alone.
\<close>

theorem account_id_hash_length_and_decode_independent:
  assumes "validate_attestation doc = Inr errs" and "attestation_of doc = Some att"
    and "field_of att ''account_id_hash'' = Some (JString s)"
  shows "filter about_account_id_hash errs =
     (if length (removeprefix ''0X'' (removeprefix ''0x'' s)) \<noteq> 64
      then [HexLength (length (removeprefix ''0X'' (removeprefix ''0x'' s)))] else [])
     @ (if fromhex_ok (removeprefix ''0X'' (removeprefix ''0x'' s)) then [] else [NotHex s])"
  by (rule validate_attestation_account_id_hash_errors [OF assms])

theorem account_id_hash_length_and_decode_independent_witness:
  "validate_attestation (sample_with ''account_id_hash'' (JString ''zz''))
     = Inr [HexLength 2, NotHex ''zz'']
   \<and> filter about_account_id_hash [HexLength 2, NotHex ''zz''] = [HexLength 2, NotHex ''zz'']
   \<and> validate_attestation (sample_with ''account_id_hash'' (JString (replicate 64 CHR ''z'')))
     = Inr [NotHex (replicate 64 CHR ''z'')]
   \<and> filter about_account_id_hash [NotHex (replicate 64 CHR ''z'')]
     = [NotHex (replicate 64 CHR ''z'')]"
proof -
  have 1: "validate_attestation (sample_with ''account_id_hash'' (JString ''zz''))
     = Inr [HexLength 2, NotHex ''zz'']" by code_simp
  have 2: "validate_attestation (sample_with ''account_id_hash'' (JString (replicate 64 CHR ''z'')))
     = Inr [NotHex (replicate 64 CHR ''z'')]" by code_simp
  have r1: "removeprefix ''0X'' (removeprefix ''0x'' ''zz'') = ''zz''"
    by (simp add: removeprefix_def)
  have r2: "removeprefix ''0X'' (removeprefix ''0x'' (replicate 64 CHR ''z'')) = replicate 64 CHR ''z''"
    by code_simp
  have h1: "\<not> fromhex_ok ''zz''" by code_simp
  have h2: "\<not> fromhex_ok (replicate 64 CHR ''z'')" by code_simp
  note a = account_id_hash_length_and_decode_independent
    [OF 1 attestation_of_sample_with field_of_update_same]
  note b = account_id_hash_length_and_decode_independent
    [OF 2 attestation_of_sample_with field_of_update_same]
  have a': "filter about_account_id_hash [HexLength 2, NotHex ''zz''] = [HexLength 2, NotHex ''zz'']"
    unfolding a r1 using h1 by simp
  have b': "filter about_account_id_hash [NotHex (replicate 64 CHR ''z'')]
     = [NotHex (replicate 64 CHR ''z'')]"
    unfolding b r2 using h2 by simp
  show ?thesis using 1 2 a' b' by simp
qed

text \<open>
  C7. On an attestation object the required-field pass never raises, and what it
  reports is the concatenation, in declaration order, of what each of the ten fields
  owes on its own: one error if the field is missing, one if it has the wrong type,
  nothing otherwise. So the errors naming a field depend on that field alone, in the
  pass and in the list the validator returns.
\<close>

theorem required_field_pass_independent:
  "check_fields (JObject kvs) required_fields
     = Inr (concat (map (presence_type_error (map_of kvs)) required_fields))
   \<and> length required_fields = 10
   \<and> (\<forall>fld\<in>set required_fields.
        filter (\<lambda>e. error_field e = Some (fst fld))
          (concat (map (presence_type_error (map_of kvs)) required_fields))
        = presence_type_error (map_of kvs) fld
      \<and> length (presence_type_error (map_of kvs) fld) \<le> 1
      \<and> (validate_attestation doc = Inr errs \<and> attestation_of doc = Some (JObject kvs) \<longrightarrow>
          filter (\<lambda>e. error_field e = Some (fst fld)) errs
          = presence_type_error (map_of kvs) fld))"
proof (intro conjI ballI impI)
  show "check_fields (JObject kvs) required_fields
     = Inr (concat (map (presence_type_error (map_of kvs)) required_fields))"
    by (rule check_fields_object)
  show "length required_fields = 10" by (simp add: required_fields_def)
next
  fix fld assume fld: "fld \<in> set required_fields"
  obtain f t d where ftd: "fld = (f, t, d)" by (cases fld)
  show "filter (\<lambda>e. error_field e = Some (fst fld))
          (concat (map (presence_type_error (map_of kvs)) required_fields))
        = presence_type_error (map_of kvs) fld"
    using filter_presence_type_error [OF distinct_required_fields fld [unfolded ftd]]
    unfolding ftd fst_conv .
  show "length (presence_type_error (map_of kvs) fld) \<le> 1"
    unfolding ftd by (simp split: option.splits)
  assume "validate_attestation doc = Inr errs \<and> attestation_of doc = Some (JObject kvs)"
  then have v: "validate_attestation doc = Inr errs"
    and a: "attestation_of doc = Some (JObject kvs)" by simp_all
  show "filter (\<lambda>e. error_field e = Some (fst fld)) errs = presence_type_error (map_of kvs) fld"
    using validate_attestation_field_errors [OF v a fld [unfolded ftd]]
    unfolding ftd fst_conv field_of_object .
qed

theorem required_field_pass_independent_witness:
  "check_fields
     (JObject (AList.delete ''custodian_id'' (AList.update ''issued_at'' (JString ''now'') sample_att)))
     required_fields
   = Inr [MissingRequired ''custodian_id'' ''u32'', WrongType ''issued_at'' PyInt PyStr]
   \<and> check_fields (JObject []) required_fields
   = Inr [MissingRequired ''balance_raw'' ''u64'',
          MissingRequired ''currency_code_int'' ''u32'',
          MissingRequired ''custodian_id'' ''u32'',
          MissingRequired ''attestation_id'' ''u64'',
          MissingRequired ''issued_at'' ''u64'',
          MissingRequired ''valid_until'' ''u64'',
          MissingRequired ''account_id_hash'' ''32-byte hex or array'',
          MissingRequired ''custodian_pubkey'' ''object with x, y'',
          MissingRequired ''signature'' ''object with r, s'',
          MissingRequired ''message_hash'' ''32-byte array'']"
proof -
  let ?kvs = "AList.delete ''custodian_id'' (AList.update ''issued_at'' (JString ''now'') sample_att)"
  have 1: "concat (map (presence_type_error (map_of ?kvs)) required_fields)
      = [MissingRequired ''custodian_id'' ''u32'', WrongType ''issued_at'' PyInt PyStr]"
    by code_simp
  have 2: "concat (map (presence_type_error (map_of [])) required_fields)
      = [MissingRequired ''balance_raw'' ''u64'',
          MissingRequired ''currency_code_int'' ''u32'',
          MissingRequired ''custodian_id'' ''u32'',
          MissingRequired ''attestation_id'' ''u64'',
          MissingRequired ''issued_at'' ''u64'',
          MissingRequired ''valid_until'' ''u64'',
          MissingRequired ''account_id_hash'' ''32-byte hex or array'',
          MissingRequired ''custodian_pubkey'' ''object with x, y'',
          MissingRequired ''signature'' ''object with r, s'',
          MissingRequired ''message_hash'' ''32-byte array'']"
    by code_simp
  note a = required_field_pass_independent [of ?kvs, THEN conjunct1, unfolded 1]
  note b = required_field_pass_independent [of "[]", THEN conjunct1, unfolded 2]
  show ?thesis using a b by (rule conjI)
qed

text \<open>
  C8. When \<open>message_hash\<close> is an array of exactly 32 elements, the validator scans it in
  index order and stops at the first element that fails its byte test (not a Python int,
  or outside [0,255]): the only element-level error in the returned list names that
  element's index and value, and the elements after it have no influence. If every
  element passes, there is no element-level error. For a JSON integer the byte test is
  the range [0,255].
\<close>

theorem message_hash_scan_stops_at_first_bad_element:
  assumes "validate_attestation doc = Inr errs" and "attestation_of doc = Some att"
    and "field_of att ''message_hash'' = Some (JArray xs)" and "length xs = 32"
  shows "(list_all is_byte xs \<longrightarrow> filter is_element_error errs = [])
       \<and> (i < 32 \<and> list_all is_byte (take i xs) \<and> \<not> is_byte (xs ! i) \<longrightarrow>
            filter is_element_error errs = [MessageHashByte i (xs ! i)]
          \<and> scan_bytes 0 (take (Suc i) xs @ later) = [MessageHashByte i (xs ! i)])
       \<and> is_byte (JInt n) = (0 \<le> n \<and> n \<le> 255)"
proof -
  note e = validate_attestation_element_errors [OF assms]
  have 1: "filter is_element_error errs = []" if "list_all is_byte xs"
    using that by (simp add: e scan_bytes_Nil)
  have 2: "filter is_element_error errs = [MessageHashByte i (xs ! i)]
          \<and> scan_bytes 0 (take (Suc i) xs @ later) = [MessageHashByte i (xs ! i)]"
    if i: "i < 32" and pre: "list_all is_byte (take i xs)" and bad: "\<not> is_byte (xs ! i)"
  proof -
    have before: "\<forall>k<i. is_byte (xs ! k)"
      using pre i assms(4) by (simp add: list_all_length)
    have "scan_bytes 0 xs = [MessageHashByte (0 + i) (xs ! i)]"
      using i assms(4) bad before by (intro scan_bytes_first) simp_all
    moreover have "scan_bytes 0 (take (Suc i) xs @ later)
        = [MessageHashByte (0 + i) ((take (Suc i) xs @ later) ! i)]"
      using i assms(4) bad before by (intro scan_bytes_first) (simp_all add: nth_append)
    moreover have "(take (Suc i) xs @ later) ! i = xs ! i"
      using i assms(4) by (simp add: nth_append)
    ultimately show ?thesis by (simp add: e)
  qed
  have 3: "is_byte (JInt n) = (0 \<le> n \<and> n \<le> 255)" by (simp add: is_byte_def)
  show ?thesis using 1 2 3 by (intro conjI impI) simp_all
qed

theorem message_hash_scan_stops_at_first_bad_element_witness:
  "validate_attestation
     (sample_with ''message_hash'' (JArray ((replicate 32 (JInt 7))[5 := JInt 256, 9 := JInt (- 1)])))
     = Inr [MessageHashByte 5 (JInt 256)]
   \<and> filter is_element_error [MessageHashByte 5 (JInt 256)]
     = [MessageHashByte 5 (((replicate 32 (JInt 7))[5 := JInt 256, 9 := JInt (- 1)]) ! 5)]
   \<and> validate_attestation
     (sample_with ''message_hash'' (JArray ((replicate 32 (JInt 7))[5 := JInt (- 1)])))
     = Inr [MessageHashByte 5 (JInt (- 1))]
   \<and> filter is_element_error [MessageHashByte 5 (JInt (- 1))]
     = [MessageHashByte 5 (((replicate 32 (JInt 7))[5 := JInt (- 1)]) ! 5)]"
proof -
  let ?xs = "(replicate 32 (JInt 7))[5 := JInt 256, 9 := JInt (- 1)]"
  let ?ys = "(replicate 32 (JInt 7))[5 := JInt (- 1)]"
  have 1: "validate_attestation (sample_with ''message_hash'' (JArray ?xs))
     = Inr [MessageHashByte 5 (JInt 256)]" by code_simp
  have 2: "validate_attestation (sample_with ''message_hash'' (JArray ?ys))
     = Inr [MessageHashByte 5 (JInt (- 1))]" by code_simp
  have lx: "length ?xs = 32" by simp
  have ly: "length ?ys = 32" by simp
  have px: "5 < (32::nat) \<and> list_all is_byte (take 5 ?xs) \<and> \<not> is_byte (?xs ! 5)"
    by code_simp
  have py: "5 < (32::nat) \<and> list_all is_byte (take 5 ?ys) \<and> \<not> is_byte (?ys ! 5)"
    by code_simp
  note a = message_hash_scan_stops_at_first_bad_element
    [OF 1 attestation_of_sample_with field_of_update_same lx,
     THEN conjunct2, THEN conjunct1, THEN mp, OF px, THEN conjunct1]
  note b = message_hash_scan_stops_at_first_bad_element
    [OF 2 attestation_of_sample_with field_of_update_same ly,
     THEN conjunct2, THEN conjunct1, THEN mp, OF py, THEN conjunct1]
  show ?thesis using 1 2 a b by (intro conjI)
qed

text \<open>
  C9. In the list the validator returns, the error for \<open>balance_raw\<close> is present
  exactly when the field is present, is a Python int and is negative; the errors for
  \<open>currency_code_int\<close> and \<open>custodian_id\<close> exactly when the field is present, is a
  Python int and lies outside [0, 2^32-1]. A field that is absent or not an int gets
  no range error.
\<close>

theorem range_errors_iff:
  assumes "validate_attestation doc = Inr errs" and "attestation_of doc = Some att"
  shows "(BalanceNegative \<in> set errs \<longleftrightarrow>
           (case int_field att ''balance_raw'' of None \<Rightarrow> False | Some n \<Rightarrow> n < 0))
       \<and> (CurrencyNotU32 \<in> set errs \<longleftrightarrow>
           (case int_field att ''currency_code_int'' of None \<Rightarrow> False
            | Some n \<Rightarrow> n < 0 \<or> n > 2 ^ 32 - 1))
       \<and> (CustodianNotU32 \<in> set errs \<longleftrightarrow>
           (case int_field att ''custodian_id'' of None \<Rightarrow> False
            | Some n \<Rightarrow> n < 0 \<or> n > 2 ^ 32 - 1))"
proof -
  have in_step: "\<And>e. e \<in> set errs \<longleftrightarrow> e \<in> set (filter (\<lambda>x. step_of x = step_of e) errs)"
    by simp
  note b = check_range_Inr
    [OF validate_attestation_step_filter(4) [OF assms, unfolded check_balance_raw_def]]
  note c = check_range_Inr
    [OF validate_attestation_step_filter(5) [OF assms, unfolded check_currency_code_int_def]]
  note d = check_range_Inr
    [OF validate_attestation_step_filter(6) [OF assms, unfolded check_custodian_id_def]]
  have 1: "BalanceNegative \<in> set errs \<longleftrightarrow>
           (case int_field att ''balance_raw'' of None \<Rightarrow> False | Some n \<Rightarrow> n < 0)"
    by (subst in_step) (simp add: b split: option.splits)
  have 2: "CurrencyNotU32 \<in> set errs \<longleftrightarrow>
           (case int_field att ''currency_code_int'' of None \<Rightarrow> False
            | Some n \<Rightarrow> n < 0 \<or> n > 2 ^ 32 - 1)"
    by (subst in_step) (simp add: c split: option.splits)
  have 3: "CustodianNotU32 \<in> set errs \<longleftrightarrow>
           (case int_field att ''custodian_id'' of None \<Rightarrow> False
            | Some n \<Rightarrow> n < 0 \<or> n > 2 ^ 32 - 1)"
    by (subst in_step) (simp add: d split: option.splits)
  show ?thesis using 1 2 3 by (intro conjI)
qed

theorem range_errors_iff_witness:
  "validate_attestation
     (document (AList.update ''balance_raw'' (JInt (- 5))
        (AList.update ''currency_code_int'' (JInt 4294967296)
          (AList.update ''custodian_id'' (JBool True) sample_att))))
     = Inr [BalanceNegative, CurrencyNotU32]
   \<and> BalanceNegative \<in> set [BalanceNegative, CurrencyNotU32]
   \<and> CurrencyNotU32 \<in> set [BalanceNegative, CurrencyNotU32]
   \<and> CustodianNotU32 \<notin> set [BalanceNegative, CurrencyNotU32]
   \<and> validate_attestation (sample_with ''balance_raw'' (JString ''-5''))
     = Inr [WrongType ''balance_raw'' PyInt PyStr]
   \<and> BalanceNegative \<notin> set [WrongType ''balance_raw'' PyInt PyStr]"
proof -
  let ?att = "AList.update ''balance_raw'' (JInt (- 5))
        (AList.update ''currency_code_int'' (JInt 4294967296)
          (AList.update ''custodian_id'' (JBool True) sample_att))"
  have 1: "validate_attestation (document ?att) = Inr [BalanceNegative, CurrencyNotU32]"
    by code_simp
  have 2: "validate_attestation (sample_with ''balance_raw'' (JString ''-5''))
     = Inr [WrongType ''balance_raw'' PyInt PyStr]" by code_simp
  have b: "int_field (JObject ?att) ''balance_raw'' = Some (- 5)" by code_simp
  have c: "int_field (JObject ?att) ''currency_code_int'' = Some 4294967296" by code_simp
  have d: "int_field (JObject ?att) ''custodian_id'' = Some 1" by code_simp
  have e: "int_field (JObject (AList.update ''balance_raw'' (JString ''-5'') sample_att))
      ''balance_raw'' = None" by code_simp
  note t = range_errors_iff [OF 1 attestation_of_document, unfolded b c d option.case]
  note u = range_errors_iff [OF 2 attestation_of_sample_with, unfolded e option.case]
  have t1: "BalanceNegative \<in> set [BalanceNegative, CurrencyNotU32]"
    using t [THEN conjunct1] by simp
  have t2: "CurrencyNotU32 \<in> set [BalanceNegative, CurrencyNotU32]"
    using t [THEN conjunct2, THEN conjunct1] by simp
  have t3: "CustodianNotU32 \<notin> set [BalanceNegative, CurrencyNotU32]"
    using t [THEN conjunct2, THEN conjunct2] by simp
  have u1: "BalanceNegative \<notin> set [WrongType ''balance_raw'' PyInt PyStr]"
    using u [THEN conjunct1] by simp
  show ?thesis using 1 2 t1 t2 t3 u1 by (intro conjI)
qed

end
